theory Spec2Isabelle
  imports Complex_Main
begin

section \<open>The expander widget of src/main.js\<close>

text \<open>
  The class \<open>SponExpander\<close> keeps a list of panes, each a button and a target element of
  the page, and opens and closes the targets with a height animation. The page and the
  animator are not part of the class: the page is a store of elements addressed by node
  id (two panes may name the same target, so the elements are shared and not copied into
  the panes), the layout engine is a function that answers \<open>getBoundingClientRect\<close>, and
  the promise returned by \<open>fromTo\<close> is an entry of a list of running animations whose
  \<open>then\<close> callback runs when the entry is finished. The listeners that \<open>emit\<close> calls
  belong to the user of the class: an emitted event is recorded, and in \<open>emit\<close> the
  listeners leave the widget alone; \<open>emit_with\<close> calls listeners that may call the widget
  back. An index is a natural number
  (\<open>clickHandle\<close> reads it from the \<open>data-accordion-index\<close> attribute that
  \<open>createPanels\<close> wrote, as a string that indexes \<open>panes\<close> like the number).
\<close>

subsection \<open>Elements\<close>

text \<open>
  The value of \<open>style.height\<close>: the empty string, the number \<open>0\<close> that \<open>expand\<close> assigns, or
  the template string with a number of pixels.
\<close>

datatype css_height = HEmpty | HZero | HPx real

record style =
  display :: string
  height :: css_height
  willChange :: string

record element =
  attributes :: "string \<Rightarrow> string option"
  classList :: "string list"
  style :: style

type_synonym dom = "nat \<Rightarrow> element"

text \<open>\<open>setAttribute\<close> turns a boolean argument into the strings \<open>true\<close> and \<open>false\<close>.\<close>

definition bool_str :: "bool \<Rightarrow> string" where
  "bool_str b = (if b then ''true'' else ''false'')"

text \<open>Numbers in the template strings of \<open>createPanels\<close> are pane indices.\<close>

fun digit_str :: "nat \<Rightarrow> string" where
  "digit_str n = [char_of (48 + n)]"

function nat_str :: "nat \<Rightarrow> string" where
  "nat_str n = (if n < 10 then digit_str n else nat_str (n div 10) @ digit_str (n mod 10))"
  by pat_completeness auto
termination
  by (relation "measure (\<lambda>n. n)") auto

definition setAttribute :: "string \<Rightarrow> string \<Rightarrow> element \<Rightarrow> element" where
  "setAttribute k v e = e\<lparr>attributes := (attributes e)(k \<mapsto> v)\<rparr>"

definition classList_add :: "string \<Rightarrow> element \<Rightarrow> element" where
  "classList_add c e =
     (if c \<in> set (classList e) then e else e\<lparr>classList := classList e @ [c]\<rparr>)"

definition classList_remove :: "string \<Rightarrow> element \<Rightarrow> element" where
  "classList_remove c e = e\<lparr>classList := removeAll c (classList e)\<rparr>"

subsection \<open>Panes, options and the widget\<close>

text \<open>
  The object literal built by \<open>createPanels\<close>. \<open>button\<close> and \<open>target\<close> are the node ids of
  \<open>$button\<close> and \<open>$target\<close>. The field \<open>machine\<close> is the same literal in every pane and no
  code writes it, so it is the constant \<open>machine\<close> below: each state with the state that
  its \<open>CLICK\<close> entry names.
\<close>

record pane =
  button :: nat
  target :: nat
  index :: nat
  "open" :: bool
  isRunning :: bool
  state :: string

definition machine :: "(string \<times> string) list" where
  "machine = [(''open'', ''close''), (''close'', ''open'')]"

text \<open>
  An easing function maps elapsed time, start, change and duration to a number. \<open>None\<close>
  is a result that is not a number of the reals (\<open>Infinity\<close>, \<open>-Infinity\<close> or \<open>NaN\<close>); the
  rounding of floating point arithmetic is left out. The widget passes the function on to
  \<open>fromTo\<close> and never applies it.
\<close>

type_synonym easing = "real \<Rightarrow> real \<Rightarrow> real \<Rightarrow> real \<Rightarrow> real option"

text \<open>
  The options the modelled methods read. \<open>open_opt\<close> is the option \<open>open\<close>; \<open>selector\<close> and
  \<open>init\<close> steer the discovery of the buttons and the call of \<open>init\<close>, which are inputs here.
\<close>

record options =
  activeIndex :: "nat option"
  closeOthers :: bool
  open_opt :: bool
  name :: string
  buttonActiveClass :: string
  contentActiveClass :: string
  duration :: real
  easing :: easing

text \<open>
  With duration 0 the first division is by zero: \<open>t\<close> becomes \<open>Infinity\<close>, \<open>-Infinity\<close> or
  \<open>NaN\<close>, and so does the result in either branch.
\<close>

definition defaultEasing :: easing where
  "defaultEasing t b c d =
     (if d = 0 then None
      else
        let t1 = t / (d / 2) in
        if t1 < 1 then Some (c / 2 * t1 * t1 + b)
        else let t2 = t1 - 1 in Some (- c / 2 * (t2 * (t2 - 2) - 1) + b))"

definition defaults :: options where
  "defaults = \<lparr>activeIndex = None, closeOthers = False, open_opt = False,
     name = ''accordion'', buttonActiveClass = ''is-active'',
     contentActiveClass = ''is-expanded'', duration = 300, easing = defaultEasing\<rparr>"

text \<open>The first argument of \<open>fromTo\<close>.\<close>

record tween =
  tw_start :: int
  tw_end :: int
  tw_duration :: real
  tw_easing :: easing

text \<open>
  A running animation: the request, and what its \<open>then\<close> callback closes over, the index
  that \<open>expand\<close> or \<open>collapse\<close> was called with and which of the two it was.
\<close>

datatype kind = Expanding | Collapsing

record job =
  job_tween :: tween
  job_index :: nat
  job_kind :: kind

text \<open>The second argument of \<open>emit\<close>: \<open>{ pane, index, panes: this.panes }\<close>.\<close>

record payload =
  pl_pane :: pane
  pl_index :: nat
  pl_panes :: "pane list"

text \<open>
  What the widget does to the outside, in the order it does it: a call of \<open>emit\<close>, with the
  page as a listener finds it at that moment (the payload holds references, so a listener
  reads the panes as they are then), and a call of \<open>fromTo\<close>.
\<close>

datatype effect = Emitted string payload dom | FromTo tween nat

datatype error = TypeError | MeasurementError

text \<open>
  \<open>current\<close> is a reference to one of the pane objects of \<open>panes\<close>; it is kept as the
  position of that object in \<open>panes\<close>, so that a write through \<open>this.current\<close> is a write
  to the pane in the list.
\<close>

record widget =
  options :: options
  el :: nat
  panes :: "pane list"
  current :: "nat option"
  document :: dom
  pending :: "job list"
  trace :: "effect list"

text \<open>
  A method either returns or throws; a throw leaves the widget as the writes before it
  made it, which is the second component of \<open>Inl\<close>.
\<close>

type_synonym result = "(error \<times> widget) + widget"

fun after :: "result \<Rightarrow> widget" where
  "after (Inl (e, w)) = w"
| "after (Inr w) = w"

text \<open>
  The answer of \<open>getBoundingClientRect().height\<close> for a node at the moment of the call;
  \<open>None\<close> when the call throws.
\<close>

type_synonym layout = "nat \<Rightarrow> real option"

definition upd_pane :: "nat \<Rightarrow> (pane \<Rightarrow> pane) \<Rightarrow> widget \<Rightarrow> widget" where
  "upd_pane i f w = w\<lparr>panes := (panes w)[i := f (panes w ! i)]\<rparr>"

definition upd_node :: "nat \<Rightarrow> (element \<Rightarrow> element) \<Rightarrow> widget \<Rightarrow> widget" where
  "upd_node n f w = w\<lparr>document := (document w)(n := f (document w n))\<rparr>"

definition upd_style :: "nat \<Rightarrow> (style \<Rightarrow> style) \<Rightarrow> widget \<Rightarrow> widget" where
  "upd_style n f w = upd_node n (\<lambda>e. e\<lparr>style := f (style e)\<rparr>) w"

definition emit :: "string \<Rightarrow> nat \<Rightarrow> widget \<Rightarrow> widget" where
  "emit nm i w =
     w\<lparr>trace := trace w @
        [Emitted nm \<lparr>pl_pane = panes w ! i, pl_index = i, pl_panes = panes w\<rparr> (document w)]\<rparr>"

definition fromTo :: "tween \<Rightarrow> nat \<Rightarrow> kind \<Rightarrow> widget \<Rightarrow> widget" where
  "fromTo tw i k w =
     w\<lparr>trace := trace w @ [FromTo tw i],
       pending := pending w @ [\<lparr>job_tween = tw, job_index = i, job_kind = k\<rparr>]\<rparr>"

subsection \<open>createPanels, init and the constructor\<close>

text \<open>
  One call of the function that \<open>createPanels\<close> maps over the buttons: \<open>b\<close> is the button,
  \<open>t\<close> what \<open>querySelector\<close> found for its target (\<open>None\<close> for \<open>null\<close>, on which the first
  method call throws), \<open>i\<close> the index.
\<close>

definition createPanel :: "nat \<Rightarrow> nat option \<Rightarrow> nat \<Rightarrow> widget \<Rightarrow> (error \<times> widget) + (pane \<times> widget)" where
  "createPanel b t i w =
     (let opts = options w;
          w1 = upd_node b (setAttribute ''data-accordion-index'' (nat_str i)) w;
          st = (open_opt opts \<or> activeIndex opts = Some i);
          w2 = upd_node b (setAttribute ''aria-expanded'' (bool_str st)) w1;
          w3 = upd_node b (setAttribute ''aria-selected'' (bool_str st)) w2;
          w4 = upd_node b (setAttribute ''aria-controls'' (name opts @ ''-'' @ nat_str i)) w3;
          w5 = (if st then upd_node b (classList_add (buttonActiveClass opts)) w4 else w4)
      in case t of
           None \<Rightarrow> Inl (TypeError, w5)
         | Some tn \<Rightarrow>
             let w6 = (if st then upd_node tn (classList_add (contentActiveClass opts)) w5 else w5);
                 w7 = upd_node tn (setAttribute ''data-enhanced'' ''true'') w6;
                 w8 = upd_node tn (setAttribute ''aria-labelledby'' (name opts @ ''-'' @ nat_str i)) w7;
                 w9 = upd_node tn (setAttribute ''aria-hidden'' (bool_str (\<not> st))) w8;
                 w10 = upd_node tn (setAttribute ''role'' ''tabpanel'') w9;
                 obj = \<lparr>button = b, target = tn, index = i, open = st, isRunning = False,
                        state = (if st then ''open'' else ''close'')\<rparr>;
                 w11 = (if activeIndex opts = Some i then w10\<lparr>current := Some i\<rparr> else w10)
             in Inr (obj, w11))"

text \<open>
  The \<open>map\<close> over the buttons found, from index \<open>i\<close> on; \<open>this.panes\<close> is assigned when the
  map is done, so \<open>current\<close> is set while \<open>panes\<close> is still the old list.
\<close>

fun map_panels :: "nat \<Rightarrow> (nat \<times> nat option) list \<Rightarrow> widget \<Rightarrow> (error \<times> widget) + (pane list \<times> widget)" where
  "map_panels i [] w = Inr ([], w)"
| "map_panels i ((b, t) # bs) w =
     (case createPanel b t i w of
        Inl e \<Rightarrow> Inl e
      | Inr (obj, w1) \<Rightarrow>
          (case map_panels (Suc i) bs w1 of
             Inl e \<Rightarrow> Inl e
           | Inr (objs, w2) \<Rightarrow> Inr (obj # objs, w2)))"

definition createPanels :: "(nat \<times> nat option) list \<Rightarrow> widget \<Rightarrow> result" where
  "createPanels found w =
     (case map_panels 0 found w of
        Inl e \<Rightarrow> Inl e
      | Inr (objs, w1) \<Rightarrow> Inr (w1\<lparr>panes := objs\<rparr>))"

text \<open>\<open>addEvents\<close> binds \<open>clickHandle\<close> to the buttons; the clicks are the actions below.\<close>

definition init :: "(nat \<times> nat option) list \<Rightarrow> widget \<Rightarrow> result" where
  "init found w =
     (case createPanels found w of
        Inl e \<Rightarrow> Inl e
      | Inr w1 \<Rightarrow>
          Inr (upd_node (el w1) (setAttribute ''aria-multiselectable'' (bool_str (closeOthers (options w1))))
                (upd_node (el w1) (setAttribute ''role'' ''tablist'') w1)))"

text \<open>
  The constructor with the option \<open>init\<close> on, as it is by default: the options already
  merged over the defaults, the container, the buttons that the selector finds with
  their targets, and the page.
\<close>

definition constructor :: "options \<Rightarrow> nat \<Rightarrow> (nat \<times> nat option) list \<Rightarrow> dom \<Rightarrow> result" where
  "constructor opts e found d =
     init found \<lparr>options = opts, el = e, panes = [], current = None, document = d,
                 pending = [], trace = []\<rparr>"

subsection \<open>onEnd, expand and collapse\<close>

definition onEnd :: "nat \<Rightarrow> widget \<Rightarrow> widget" where
  "onEnd i w =
     (let p = panes w ! i; t = target p; b = button p; opn = open p;
          w1 = upd_style t (\<lambda>s. s\<lparr>willChange := ''''\<rparr>) w;
          w2 = upd_style t (\<lambda>s. s\<lparr>height := HEmpty\<rparr>) w1;
          w3 = upd_style t (\<lambda>s. s\<lparr>display := ''''\<rparr>) w2;
          w4 = upd_pane i (\<lambda>p. p\<lparr>isRunning := False\<rparr>) w3;
          w5 = upd_node b (setAttribute ''aria-expanded'' (bool_str opn)) w4;
          w6 = upd_node b (setAttribute ''aria-selected'' (bool_str opn)) w5
      in upd_node t (setAttribute ''aria-hidden'' (bool_str (\<not> opn))) w6)"

text \<open>The two \<open>then\<close> callbacks.\<close>

definition then_opened :: "nat \<Rightarrow> widget \<Rightarrow> widget" where
  "then_opened i w =
     (let p = panes w ! i;
          w1 = onEnd i w;
          w2 = upd_node (button p) (classList_add (buttonActiveClass (options w))) w1;
          w3 = upd_node (target p) (classList_add (contentActiveClass (options w))) w2
      in emit ''spon:opened'' i w3)"

definition then_closed :: "nat \<Rightarrow> widget \<Rightarrow> widget" where
  "then_closed i w =
     (let p = panes w ! i;
          w1 = onEnd i w;
          w2 = upd_node (button p) (classList_remove (buttonActiveClass (options w))) w1;
          w3 = upd_node (target p) (classList_remove (contentActiveClass (options w))) w2
      in emit ''spon:closed'' i w3)"

text \<open>
  \<open>this.panes[index]\<close> is \<open>undefined\<close> for an index outside the list, and reading
  \<open>isRunning\<close> from it throws.
\<close>

definition expand :: "layout \<Rightarrow> widget \<Rightarrow> nat \<Rightarrow> result" where
  "expand L w i =
     (if length (panes w) \<le> i then Inl (TypeError, w)
      else
        let p = panes w ! i in
        if isRunning p then Inr w
        else
          let t = target p;
              w1 = upd_style t (\<lambda>s. s\<lparr>display := ''block''\<rparr>) w
          in case L t of
               None \<Rightarrow> Inl (MeasurementError, w1)
             | Some h \<Rightarrow>
                 let w2 = upd_style t (\<lambda>s. s\<lparr>height := HZero\<rparr>) w1;
                     w3 = upd_style t (\<lambda>s. s\<lparr>willChange := ''height''\<rparr>) w2;
                     w4 = upd_pane i (\<lambda>p. p\<lparr>isRunning := True\<rparr>) w3;
                     w5 = upd_pane i (\<lambda>p. p\<lparr>open := True\<rparr>) w4;
                     w6 = emit ''spon:open'' i w5
                 in Inr (fromTo \<lparr>tw_start = 0, tw_end = round h,
                                  tw_duration = duration (options w),
                                  tw_easing = easing (options w)\<rparr> i Expanding w6))"

definition collapse :: "layout \<Rightarrow> widget \<Rightarrow> nat \<Rightarrow> result" where
  "collapse L w i =
     (if length (panes w) \<le> i then Inl (TypeError, w)
      else
        let p = panes w ! i in
        if isRunning p then Inr w
        else
          let w1 = upd_pane i (\<lambda>p. p\<lparr>open := False\<rparr>) w;
              t = target p
          in case L t of
               None \<Rightarrow> Inl (MeasurementError, w1)
             | Some h \<Rightarrow>
                 let w2 = upd_style t (\<lambda>s. s\<lparr>height := HPx h\<rparr>) w1;
                     w3 = upd_style t (\<lambda>s. s\<lparr>willChange := ''height''\<rparr>) w2;
                     w4 = emit ''spon:close'' i w3;
                     w5 = upd_pane i (\<lambda>p. p\<lparr>isRunning := True\<rparr>) w4
                 in Inr (fromTo \<lparr>tw_start = round h, tw_end = 0,
                                  tw_duration = duration (options w),
                                  tw_easing = easing (options w)\<rparr> i Collapsing w5))"

subsection \<open>Listeners\<close>

text \<open>
  \<open>emit\<close> is the \<open>emit\<close> of mitt, which calls the handlers registered for the name, one
  after the other, before it returns. A handler is code of the user of the class and may
  call the methods of the widget. \<open>listeners\<close> is what the registered handlers do to the
  widget when they are called with a name and a payload; \<open>quiet\<close> are handlers that leave
  the widget alone (or none), and \<open>emit\<close> above is \<open>emit_with quiet\<close>. \<open>expand_with\<close> and
  \<open>collapse_with\<close> are \<open>expand\<close> and \<open>collapse\<close> with the handlers called where the source
  calls \<open>emit\<close>.
\<close>

type_synonym listeners = "string \<Rightarrow> payload \<Rightarrow> widget \<Rightarrow> widget"

definition quiet :: listeners where
  "quiet nm pl w = w"

definition emit_with :: "listeners \<Rightarrow> string \<Rightarrow> nat \<Rightarrow> widget \<Rightarrow> widget" where
  "emit_with H nm i w =
     H nm \<lparr>pl_pane = panes w ! i, pl_index = i, pl_panes = panes w\<rparr> (emit nm i w)"

definition expand_with :: "listeners \<Rightarrow> layout \<Rightarrow> widget \<Rightarrow> nat \<Rightarrow> result" where
  "expand_with H L w i =
     (if length (panes w) \<le> i then Inl (TypeError, w)
      else
        let p = panes w ! i in
        if isRunning p then Inr w
        else
          let t = target p;
              w1 = upd_style t (\<lambda>s. s\<lparr>display := ''block''\<rparr>) w
          in case L t of
               None \<Rightarrow> Inl (MeasurementError, w1)
             | Some h \<Rightarrow>
                 let w2 = upd_style t (\<lambda>s. s\<lparr>height := HZero\<rparr>) w1;
                     w3 = upd_style t (\<lambda>s. s\<lparr>willChange := ''height''\<rparr>) w2;
                     w4 = upd_pane i (\<lambda>p. p\<lparr>isRunning := True\<rparr>) w3;
                     w5 = upd_pane i (\<lambda>p. p\<lparr>open := True\<rparr>) w4;
                     w6 = emit_with H ''spon:open'' i w5
                 in Inr (fromTo \<lparr>tw_start = 0, tw_end = round h,
                                  tw_duration = duration (options w),
                                  tw_easing = easing (options w)\<rparr> i Expanding w6))"

definition collapse_with :: "listeners \<Rightarrow> layout \<Rightarrow> widget \<Rightarrow> nat \<Rightarrow> result" where
  "collapse_with H L w i =
     (if length (panes w) \<le> i then Inl (TypeError, w)
      else
        let p = panes w ! i in
        if isRunning p then Inr w
        else
          let w1 = upd_pane i (\<lambda>p. p\<lparr>open := False\<rparr>) w;
              t = target p
          in case L t of
               None \<Rightarrow> Inl (MeasurementError, w1)
             | Some h \<Rightarrow>
                 let w2 = upd_style t (\<lambda>s. s\<lparr>height := HPx h\<rparr>) w1;
                     w3 = upd_style t (\<lambda>s. s\<lparr>willChange := ''height''\<rparr>) w2;
                     w4 = emit_with H ''spon:close'' i w3;
                     w5 = upd_pane i (\<lambda>p. p\<lparr>isRunning := True\<rparr>) w4
                 in Inr (fromTo \<lparr>tw_start = round h, tw_end = 0,
                                  tw_duration = duration (options w),
                                  tw_easing = easing (options w)\<rparr> i Collapsing w5))"



subsection \<open>clickHandle\<close>

text \<open>
  \<open>i\<close> is the index that the clicked button carries in \<open>data-accordion-index\<close>. A state
  without a row in \<open>machine\<close> makes \<open>machine[state].CLICK\<close> throw.
\<close>

definition close_current :: "layout \<Rightarrow> widget \<Rightarrow> nat \<Rightarrow> result" where
  "close_current L w i =
     (case current w of
        None \<Rightarrow> Inr w
      | Some c \<Rightarrow>
          if closeOthers (options w) \<and> index (panes w ! c) \<noteq> i then
            (case map_of machine (state (panes w ! c)) of
               None \<Rightarrow> Inl (TypeError, w)
             | Some s \<Rightarrow>
                 collapse L (upd_pane c (\<lambda>p. p\<lparr>state := s\<rparr>) w) (index (panes w ! c)))
          else Inr w)"

definition clickHandle :: "layout \<Rightarrow> widget \<Rightarrow> nat \<Rightarrow> result" where
  "clickHandle L w i =
     (if length (panes w) \<le> i then Inl (TypeError, w)
      else
        case map_of machine (state (panes w ! i)) of
          None \<Rightarrow> Inl (TypeError, w)
        | Some s \<Rightarrow>
            (case close_current L (upd_pane i (\<lambda>p. p\<lparr>state := s\<rparr>) w) i of
               Inl e \<Rightarrow> Inl e
             | Inr w2 \<Rightarrow>
                 (case (if state (panes w2 ! i) = ''open'' then expand L w2 i
                        else collapse L w2 i) of
                    Inl e \<Rightarrow> Inl e
                  | Inr w3 \<Rightarrow> Inr (w3\<lparr>current := Some i\<rparr>))))"

subsection \<open>The animator and runs of the widget\<close>

text \<open>
  The animator calls the second argument of \<open>fromTo\<close> with a value, and resolves the
  promise, which runs the \<open>then\<close> callback. \<open>k\<close> is the position of the animation among
  the running ones.
\<close>

definition tick :: "nat \<Rightarrow> real \<Rightarrow> widget \<Rightarrow> widget" where
  "tick k v w =
     (if k < length (pending w)
      then upd_style (target (panes w ! job_index (pending w ! k))) (\<lambda>s. s\<lparr>height := HPx v\<rparr>) w
      else w)"

definition finish :: "nat \<Rightarrow> widget \<Rightarrow> widget" where
  "finish k w =
     (if k < length (pending w) then
        let j = pending w ! k;
            w1 = w\<lparr>pending := take k (pending w) @ drop (Suc k) (pending w)\<rparr>
        in (case job_kind j of
              Expanding \<Rightarrow> then_opened (job_index j) w1
            | Collapsing \<Rightarrow> then_closed (job_index j) w1)
      else w)"

text \<open>
  What can happen to a widget: a click on the button of a pane, a call of \<open>expand\<close> or
  \<open>collapse\<close> from outside, a value from the animator, the end of an animation. A method
  that throws leaves the widget as it was at the throw.
\<close>

datatype action =
    Click layout nat
  | Expand layout nat
  | Collapse layout nat
  | Tick nat real
  | Finish nat

fun step :: "widget \<Rightarrow> action \<Rightarrow> widget" where
  "step w (Click L i) = after (clickHandle L w i)"
| "step w (Expand L i) = after (expand L w i)"
| "step w (Collapse L i) = after (collapse L w i)"
| "step w (Tick k v) = tick k v w"
| "step w (Finish k) = finish k w"

definition run :: "widget \<Rightarrow> action list \<Rightarrow> widget" where
  "run w acts = foldl step w acts"

subsection \<open>Consistent widgets\<close>

text \<open>
  What holds of a widget after the constructor and after every action: the pane at
  position \<open>i\<close> has index \<open>i\<close>, every state has a row in \<open>machine\<close>, \<open>current\<close> is a pane
  of the list, every running animation belongs to a pane of the list, and a pane has
  one running animation when \<open>isRunning\<close> is set and none when it is not.
\<close>

definition jobs_for :: "nat \<Rightarrow> job list \<Rightarrow> job list" where
  "jobs_for i js = filter (\<lambda>j. job_index j = i) js"

definition inv_index :: "widget \<Rightarrow> bool" where
  "inv_index w = (map index (panes w) = [0..<length (panes w)])"

definition inv_state :: "widget \<Rightarrow> bool" where
  "inv_state w = list_all (\<lambda>p. state p = ''open'' \<or> state p = ''close'') (panes w)"

definition inv_current :: "widget \<Rightarrow> bool" where
  "inv_current w = (case current w of None \<Rightarrow> True | Some c \<Rightarrow> c < length (panes w))"

definition inv_pending :: "widget \<Rightarrow> bool" where
  "inv_pending w =
     (list_all (\<lambda>j. job_index j < length (panes w)) (pending w) \<and>
      list_all (\<lambda>i. length (jobs_for i (pending w)) = (if isRunning (panes w ! i) then 1 else 0))
        [0..<length (panes w)])"

definition consistent :: "widget \<Rightarrow> bool" where
  "consistent w = (inv_index w \<and> inv_state w \<and> inv_current w \<and> inv_pending w)"

text \<open>The step of the table, and the clicks of a run that are on a given pane.\<close>

definition toggle :: "string \<Rightarrow> string" where
  "toggle s = (case map_of machine s of None \<Rightarrow> s | Some s' \<Rightarrow> s')"

fun is_click :: "action \<Rightarrow> bool" where
  "is_click (Click L j) = True"
| "is_click a = False"

fun is_click_on :: "nat \<Rightarrow> action \<Rightarrow> bool" where
  "is_click_on i (Click L j) = (j = i)"
| "is_click_on i a = False"


fun event_names :: "effect list \<Rightarrow> string list" where
  "event_names [] = []"
| "event_names (Emitted nm pl d # es) = nm # event_names es"
| "event_names (FromTo tw j # es) = event_names es"

text \<open>
  An event as a listener may rely on it: one of the four names that the class emits, and
  a payload whose \<open>pane\<close> is the entry of \<open>panes\<close> at \<open>index\<close>.
\<close>

definition event_names_emitted :: "string list" where
  "event_names_emitted = [''spon:open'', ''spon:opened'', ''spon:close'', ''spon:closed'']"

fun event_ok :: "effect \<Rightarrow> bool" where
  "event_ok (Emitted nm pl d) =
     (nm \<in> set event_names_emitted \<and> pl_index pl < length (pl_panes pl) \<and>
      pl_pane pl = pl_panes pl ! pl_index pl)"
| "event_ok (FromTo tw j) = True"

text \<open>An element without inline values for the three properties that the widget sets.\<close>

definition cleared :: style where
  "cleared = \<lparr>display = '''', height = HEmpty, willChange = ''''\<rparr>"

text \<open>
  What \<open>onEnd\<close> leaves on the page for a pane: no inline value for the three style
  properties, and the three aria attributes telling whether the pane is open.
\<close>

definition restored :: "pane \<Rightarrow> dom \<Rightarrow> bool" where
  "restored p d =
     (style (d (target p)) = cleared \<and>
      attributes (d (button p)) ''aria-expanded'' = Some (bool_str (open p)) \<and>
      attributes (d (button p)) ''aria-selected'' = Some (bool_str (open p)) \<and>
      attributes (d (target p)) ''aria-hidden'' = Some (bool_str (\<not> open p)))"

text \<open>The name of the event that the \<open>then\<close> callback of an animation emits.\<close>

fun post_event :: "kind \<Rightarrow> string" where
  "post_event Expanding = ''spon:opened''"
| "post_event Collapsing = ''spon:closed''"

subsection \<open>A page with two panes\<close>

text \<open>
  The inputs at which the theorems below are tried: a page whose elements carry nothing,
  two buttons (nodes 1 and 3) with their targets (nodes 2 and 4) in the container (node
  0), the default options and the default options with \<open>closeOthers\<close>, and a layout
  engine that measures every target as 120.4 pixels high.
\<close>

definition blank :: element where
  "blank = \<lparr>attributes = Map.empty, classList = [], style = cleared\<rparr>"

definition page :: dom where
  "page = (\<lambda>n. blank)"

definition found2 :: "(nat \<times> nat option) list" where
  "found2 = [(1, Some 2), (3, Some 4)]"

definition exclusive :: options where
  "exclusive = defaults\<lparr>closeOthers := True\<rparr>"

definition measured :: layout where
  "measured = (\<lambda>n. Some (1204 / 10))"

definition unmeasured :: layout where
  "unmeasured = (\<lambda>n. None)"

text \<open>The answer for a target that is not in the document: no height.\<close>

definition detached :: layout where
  "detached = (\<lambda>n. Some 0)"

text \<open>The same page, but the first target carries an inline \<open>display: none\<close>.\<close>

definition page_inline :: dom where
  "page_inline = page(2 := blank\<lparr>style := cleared\<lparr>display := ''none''\<rparr>\<rparr>)"

definition demo_inline :: widget where
  "demo_inline = after (constructor defaults 0 found2 page_inline)"

definition demo :: widget where
  "demo = after (constructor defaults 0 found2 page)"

definition demo_x :: widget where
  "demo_x = after (constructor exclusive 0 found2 page)"

section \<open>Reading the fields of a widget after a method\<close>

declare nat_str.simps [simp del]

lemma upd_pane_fields [simp]:
  "options (upd_pane i f w) = options w"
  "el (upd_pane i f w) = el w"
  "current (upd_pane i f w) = current w"
  "document (upd_pane i f w) = document w"
  "pending (upd_pane i f w) = pending w"
  "trace (upd_pane i f w) = trace w"
  "panes (upd_pane i f w) = (panes w)[i := f (panes w ! i)]"
  by (simp_all add: upd_pane_def)

lemma upd_node_fields [simp]:
  "options (upd_node n g w) = options w"
  "el (upd_node n g w) = el w"
  "current (upd_node n g w) = current w"
  "panes (upd_node n g w) = panes w"
  "pending (upd_node n g w) = pending w"
  "trace (upd_node n g w) = trace w"
  "document (upd_node n g w) = (document w)(n := g (document w n))"
  by (simp_all add: upd_node_def)

lemma upd_style_fields [simp]:
  "options (upd_style n g w) = options w"
  "el (upd_style n g w) = el w"
  "current (upd_style n g w) = current w"
  "panes (upd_style n g w) = panes w"
  "pending (upd_style n g w) = pending w"
  "trace (upd_style n g w) = trace w"
  "document (upd_style n g w) = (document w)(n := (document w n)\<lparr>style := g (style (document w n))\<rparr>)"
  by (simp_all add: upd_style_def)

lemma emit_fields [simp]:
  "options (emit nm i w) = options w"
  "el (emit nm i w) = el w"
  "current (emit nm i w) = current w"
  "panes (emit nm i w) = panes w"
  "pending (emit nm i w) = pending w"
  "document (emit nm i w) = document w"
  "trace (emit nm i w) = trace w @
      [Emitted nm \<lparr>pl_pane = panes w ! i, pl_index = i, pl_panes = panes w\<rparr> (document w)]"
  by (simp_all add: emit_def)

lemma fromTo_fields [simp]:
  "options (fromTo tw i k w) = options w"
  "el (fromTo tw i k w) = el w"
  "current (fromTo tw i k w) = current w"
  "panes (fromTo tw i k w) = panes w"
  "document (fromTo tw i k w) = document w"
  "pending (fromTo tw i k w) = pending w @ [\<lparr>job_tween = tw, job_index = i, job_kind = k\<rparr>]"
  "trace (fromTo tw i k w) = trace w @ [FromTo tw i]"
  by (simp_all add: fromTo_def)

lemma onEnd_fields [simp]:
  "options (onEnd i w) = options w"
  "el (onEnd i w) = el w"
  "current (onEnd i w) = current w"
  "pending (onEnd i w) = pending w"
  "trace (onEnd i w) = trace w"
  "panes (onEnd i w) = (panes w)[i := (panes w ! i)\<lparr>isRunning := False\<rparr>]"
  by (simp_all add: onEnd_def Let_def)

lemma then_opened_fields [simp]:
  "options (then_opened i w) = options w"
  "el (then_opened i w) = el w"
  "current (then_opened i w) = current w"
  "pending (then_opened i w) = pending w"
  "panes (then_opened i w) = (panes w)[i := (panes w ! i)\<lparr>isRunning := False\<rparr>]"
  by (simp_all add: then_opened_def Let_def)

lemma then_closed_fields [simp]:
  "options (then_closed i w) = options w"
  "el (then_closed i w) = el w"
  "current (then_closed i w) = current w"
  "pending (then_closed i w) = pending w"
  "panes (then_closed i w) = (panes w)[i := (panes w ! i)\<lparr>isRunning := False\<rparr>]"
  by (simp_all add: then_closed_def Let_def)

lemma expand_range: "length (panes w) \<le> i \<Longrightarrow> expand L w i = Inl (TypeError, w)"
  by (simp add: expand_def)


lemma expand_fields:
  "options (after (expand L w i)) = options w"
  "el (after (expand L w i)) = el w"
  "current (after (expand L w i)) = current w"
  "length (panes (after (expand L w i))) = length (panes w)"
  by (simp_all add: expand_def Let_def split: option.splits)

lemma collapse_fields:
  "options (after (collapse L w i)) = options w"
  "el (after (collapse L w i)) = el w"
  "current (after (collapse L w i)) = current w"
  "length (panes (after (collapse L w i))) = length (panes w)"
  by (simp_all add: collapse_def Let_def split: option.splits)

section \<open>Consistency is kept\<close>

lemma inv_index_iff: "inv_index w \<longleftrightarrow> (\<forall>i<length (panes w). index (panes w ! i) = i)"
  unfolding inv_index_def by (subst list_eq_iff_nth_eq) simp

lemma inv_state_iff: "inv_state w \<longleftrightarrow> (\<forall>i<length (panes w). state (panes w ! i) = ''open'' \<or> state (panes w ! i) = ''close'')"
  unfolding inv_state_def by (simp add: list_all_length)

lemma inv_current_iff: "inv_current w \<longleftrightarrow> (\<forall>c. current w = Some c \<longrightarrow> c < length (panes w))"
  unfolding inv_current_def by (simp split: option.splits)

lemma inv_pending_iff:
  "inv_pending w \<longleftrightarrow>
     (\<forall>j\<in>set (pending w). job_index j < length (panes w)) \<and>
     (\<forall>i<length (panes w). length (jobs_for i (pending w)) = (if isRunning (panes w ! i) then 1 else 0))"
  unfolding inv_pending_def list_all_iff by auto

lemma jobs_for_append [simp]: "jobs_for i (xs @ ys) = jobs_for i xs @ jobs_for i ys"
  by (simp add: jobs_for_def)

lemma jobs_for_single [simp]:
  "jobs_for i [j] = (if job_index j = i then [j] else [])"
  by (simp add: jobs_for_def)

lemma jobs_for_without:
  assumes "k < length js"
  shows "length (jobs_for i (take k js @ drop (Suc k) js)) =
         length (jobs_for i js) - (if job_index (js ! k) = i then 1 else 0)"
proof -
  have "js = take k js @ js ! k # drop (Suc k) js"
    using assms by (rule id_take_nth_drop)
  then have "jobs_for i js = jobs_for i (take k js) @ jobs_for i [js ! k] @ jobs_for i (drop (Suc k) js)"
    by (metis append_Cons append_Nil jobs_for_append)
  then show ?thesis by simp
qed

lemma jobs_for_member:
  "j \<in> set js \<Longrightarrow> 0 < length (jobs_for (job_index j) js)"
  by (auto simp: jobs_for_def filter_empty_conv)

lemma expand_panes:
  "panes (after (expand L w i)) = panes w \<and> pending (after (expand L w i)) = pending w \<or>
   (i < length (panes w) \<and> \<not> isRunning (panes w ! i) \<and>
    panes (after (expand L w i)) = (panes w)[i := (panes w ! i)\<lparr>isRunning := True, open := True\<rparr>] \<and>
    (\<exists>j. job_index j = i \<and> pending (after (expand L w i)) = pending w @ [j]))"
  by (simp add: expand_def Let_def split: option.splits)

lemma collapse_panes:
  "panes (after (collapse L w i)) = panes w \<and> pending (after (collapse L w i)) = pending w \<or>
   (i < length (panes w) \<and> \<not> isRunning (panes w ! i) \<and>
    panes (after (collapse L w i)) = (panes w)[i := (panes w ! i)\<lparr>open := False\<rparr>] \<and>
    pending (after (collapse L w i)) = pending w) \<or>
   (i < length (panes w) \<and> \<not> isRunning (panes w ! i) \<and>
    panes (after (collapse L w i)) = (panes w)[i := (panes w ! i)\<lparr>open := False, isRunning := True\<rparr>] \<and>
    (\<exists>j. job_index j = i \<and> pending (after (collapse L w i)) = pending w @ [j]))"
  by (simp add: collapse_def Let_def split: option.splits)

lemma consistentD:
  assumes "consistent w"
  shows "\<And>k. k < length (panes w) \<Longrightarrow> index (panes w ! k) = k"
    and "\<And>k. k < length (panes w) \<Longrightarrow> state (panes w ! k) = ''open'' \<or> state (panes w ! k) = ''close''"
    and "\<And>c. current w = Some c \<Longrightarrow> c < length (panes w)"
    and "\<And>j. j \<in> set (pending w) \<Longrightarrow> job_index j < length (panes w)"
    and "\<And>k. k < length (panes w) \<Longrightarrow>
           length (jobs_for k (pending w)) = (if isRunning (panes w ! k) then 1 else 0)"
  using assms
  by (simp_all add: consistent_def inv_index_iff inv_state_iff inv_current_iff inv_pending_iff)

lemma consistentI:
  assumes "\<And>k. k < length (panes w) \<Longrightarrow> index (panes w ! k) = k"
    and "\<And>k. k < length (panes w) \<Longrightarrow> state (panes w ! k) = ''open'' \<or> state (panes w ! k) = ''close''"
    and "\<And>c. current w = Some c \<Longrightarrow> c < length (panes w)"
    and "\<And>j. j \<in> set (pending w) \<Longrightarrow> job_index j < length (panes w)"
    and "\<And>k. k < length (panes w) \<Longrightarrow>
           length (jobs_for k (pending w)) = (if isRunning (panes w ! k) then 1 else 0)"
  shows "consistent w"
  unfolding consistent_def inv_index_iff inv_state_iff inv_current_iff inv_pending_iff
  using assms by blast

lemma consistent_start:
  assumes c: "consistent w"
    and cu: "current w' = current w"
    and i: "i < length (panes w)" and nr: "\<not> isRunning (panes w ! i)"
    and p: "panes w' = (panes w)[i := q]"
    and q: "index q = index (panes w ! i)" "state q = state (panes w ! i)" "isRunning q"
    and j: "job_index j = i" "pending w' = pending w @ [j]"
  shows "consistent w'"
proof (rule consistentI)
  fix k assume "k < length (panes w')"
  then show "index (panes w' ! k) = k"
    using consistentD(1) [OF c, of k] p q by (cases "k = i") simp_all
next
  fix k assume "k < length (panes w')"
  then show "state (panes w' ! k) = ''open'' \<or> state (panes w' ! k) = ''close''"
    using consistentD(2) [OF c, of k] p q by (cases "k = i") simp_all
next
  fix c' assume "current w' = Some c'"
  then show "c' < length (panes w')"
    using consistentD(3) [OF c, of c'] p cu by simp
next
  fix j' assume "j' \<in> set (pending w')"
  then show "job_index j' < length (panes w')"
    using consistentD(4) [OF c, of j'] p j i by auto
next
  fix k assume "k < length (panes w')"
  then show "length (jobs_for k (pending w')) = (if isRunning (panes w' ! k) then 1 else 0)"
    using consistentD(5) [OF c, of k] p q j i nr by (cases "k = i") simp_all
qed

lemma consistent_keep:
  assumes c: "consistent w"
    and cu: "current w' = current w"
    and pe: "pending w' = pending w"
    and p: "panes w' = (panes w)[i := q]"
    and q: "index q = index (panes w ! i)" "state q = ''open'' \<or> state q = ''close''"
       "isRunning q = isRunning (panes w ! i)"
  shows "consistent w'"
proof (rule consistentI)
  fix k assume "k < length (panes w')"
  then show "index (panes w' ! k) = k"
    using consistentD(1) [OF c, of k] p q by (cases "k = i") simp_all
next
  fix k assume "k < length (panes w')"
  then show "state (panes w' ! k) = ''open'' \<or> state (panes w' ! k) = ''close''"
    using consistentD(2) [OF c, of k] p q by (cases "k = i") simp_all
next
  fix c' assume "current w' = Some c'"
  then show "c' < length (panes w')"
    using consistentD(3) [OF c, of c'] p cu by simp
next
  fix j' assume "j' \<in> set (pending w')"
  then show "job_index j' < length (panes w')"
    using consistentD(4) [OF c, of j'] p pe by simp
next
  fix k assume "k < length (panes w')"
  then show "length (jobs_for k (pending w')) = (if isRunning (panes w' ! k) then 1 else 0)"
    using consistentD(5) [OF c, of k] p q pe by (cases "k = i") simp_all
qed

lemma consistent_same:
  assumes c: "consistent w" and e: "current w' = current w" "pending w' = pending w" "panes w' = panes w"
  shows "consistent w'"
proof (rule consistentI)
  fix k assume "k < length (panes w')"
  then show "index (panes w' ! k) = k"
    using consistentD(1) [OF c, of k] e by simp
next
  fix k assume "k < length (panes w')"
  then show "state (panes w' ! k) = ''open'' \<or> state (panes w' ! k) = ''close''"
    using consistentD(2) [OF c, of k] e by simp
next
  fix c' assume "current w' = Some c'"
  then show "c' < length (panes w')"
    using consistentD(3) [OF c, of c'] e by simp
next
  fix j' assume "j' \<in> set (pending w')"
  then show "job_index j' < length (panes w')"
    using consistentD(4) [OF c, of j'] e by simp
next
  fix k assume "k < length (panes w')"
  then show "length (jobs_for k (pending w')) = (if isRunning (panes w' ! k) then 1 else 0)"
    using consistentD(5) [OF c, of k] e by simp
qed

lemma consistent_expand:
  assumes c: "consistent w"
  shows "consistent (after (expand L w i))"
  using expand_panes [of L w i]
proof (elim disjE conjE exE)
  assume p: "panes (after (expand L w i)) = panes w" and pe: "pending (after (expand L w i)) = pending w"
  show ?thesis by (rule consistent_same [OF c expand_fields(3) pe p])
next
  fix j
  assume a: "i < length (panes w)" "\<not> isRunning (panes w ! i)"
    and p: "panes (after (expand L w i)) = (panes w)[i := (panes w ! i)\<lparr>isRunning := True, open := True\<rparr>]"
    and j: "job_index j = i" "pending (after (expand L w i)) = pending w @ [j]"
  show ?thesis
    by (rule consistent_start [OF c expand_fields(3) a p _ _ _ j]) simp_all
qed

lemma consistent_collapse:
  assumes c: "consistent w"
  shows "consistent (after (collapse L w i))"
  using collapse_panes [of L w i]
proof (elim disjE conjE exE)
  assume p: "panes (after (collapse L w i)) = panes w" and pe: "pending (after (collapse L w i)) = pending w"
  show ?thesis by (rule consistent_same [OF c collapse_fields(3) pe p])
next
  assume a: "i < length (panes w)" "\<not> isRunning (panes w ! i)"
    and p: "panes (after (collapse L w i)) = (panes w)[i := (panes w ! i)\<lparr>open := False\<rparr>]"
    and pe: "pending (after (collapse L w i)) = pending w"
  show ?thesis
    by (rule consistent_keep [OF c collapse_fields(3) pe p]) (use consistentD(2) [OF c a(1)] in simp_all)
next
  fix j
  assume a: "i < length (panes w)" "\<not> isRunning (panes w ! i)"
    and p: "panes (after (collapse L w i)) = (panes w)[i := (panes w ! i)\<lparr>open := False, isRunning := True\<rparr>]"
    and j: "job_index j = i" "pending (after (collapse L w i)) = pending w @ [j]"
  show ?thesis
    by (rule consistent_start [OF c collapse_fields(3) a p _ _ _ j]) simp_all
qed

lemma machine_range: "map_of machine s = Some s' \<Longrightarrow> s' = ''open'' \<or> s' = ''close''"
  by (simp add: machine_def split: if_splits)

lemma machine_defined: "s = ''open'' \<or> s = ''close'' \<Longrightarrow> map_of machine s = Some (toggle s)"
  by (auto simp: machine_def toggle_def)

lemma toggle_open [simp]: "toggle ''open'' = ''close''"
  by (simp add: toggle_def machine_def)

lemma toggle_close [simp]: "toggle ''close'' = ''open''"
  by (simp add: toggle_def machine_def)

lemma consistent_set_state:
  assumes c: "consistent w" and s: "s = ''open'' \<or> s = ''close''"
  shows "consistent (upd_pane i (\<lambda>p. p\<lparr>state := s\<rparr>) w)"
  by (rule consistent_keep [OF c, where i = i and q = "(panes w ! i)\<lparr>state := s\<rparr>"])
     (use s in simp_all)

lemma consistent_set_current:
  assumes c: "consistent w" and i: "i < length (panes w)"
  shows "consistent (w\<lparr>current := Some i\<rparr>)"
proof (rule consistentI)
  fix c' assume "current (w\<lparr>current := Some i\<rparr>) = Some c'"
  then show "c' < length (panes (w\<lparr>current := Some i\<rparr>))" using i by simp
qed (use consistentD [OF c] in simp_all)

lemma consistent_close_current:
  assumes c: "consistent w"
  shows "consistent (after (close_current L w i))"
proof (cases "current w")
  case None
  then show ?thesis using c by (simp add: close_current_def)
next
  case (Some k)
  show ?thesis
  proof (cases "closeOthers (options w) \<and> index (panes w ! k) \<noteq> i")
    case False
    then show ?thesis using c Some by (auto simp: close_current_def)
  next
    case True
    show ?thesis
    proof (cases "map_of machine (state (panes w ! k))")
      case None
      then show ?thesis using c Some True by (simp add: close_current_def)
    next
      case (Some s)
      have "consistent (upd_pane k (\<lambda>p. p\<lparr>state := s\<rparr>) w)"
        by (rule consistent_set_state [OF c machine_range [OF Some]])
      then have "consistent (after (collapse L (upd_pane k (\<lambda>p. p\<lparr>state := s\<rparr>) w) (index (panes w ! k))))"
        by (rule consistent_collapse)
      then show ?thesis using \<open>current w = Some k\<close> True Some by (simp add: close_current_def)
    qed
  qed
qed

lemma close_current_fields:
  "options (after (close_current L w i)) = options w"
  "el (after (close_current L w i)) = el w"
  "current (after (close_current L w i)) = current w"
  "length (panes (after (close_current L w i))) = length (panes w)"
  by (simp_all add: close_current_def collapse_fields split: option.splits)

lemma after_bind:
  "after (case r of Inl e \<Rightarrow> Inl e | Inr w \<Rightarrow> f w) =
     (case r of Inl e \<Rightarrow> snd e | Inr w \<Rightarrow> after (f w))"
  by (cases r) auto

lemma consistent_clickHandle:
  assumes c: "consistent w"
  shows "consistent (after (clickHandle L w i))"
proof (cases "i < length (panes w)")
  case False
  then show ?thesis using c by (simp add: clickHandle_def)
next
  case i: True
  show ?thesis
  proof (cases "map_of machine (state (panes w ! i))")
    case None
    then show ?thesis using c i by (simp add: clickHandle_def)
  next
    case (Some s)
    define w1 where "w1 = upd_pane i (\<lambda>p. p\<lparr>state := s\<rparr>) w"
    have c1: "consistent w1"
      unfolding w1_def by (rule consistent_set_state [OF c machine_range [OF Some]])
    have c2: "consistent (after (close_current L w1 i))"
      by (rule consistent_close_current [OF c1])
    show ?thesis
    proof (cases "close_current L w1 i")
      case (Inl e)
      then show ?thesis using c2 i Some by (cases e) (simp add: clickHandle_def w1_def)
    next
      case (Inr w2)
      then have c2': "consistent w2" using c2 by simp
      have l2: "length (panes w2) = length (panes w)"
        using close_current_fields(4) [of L w1 i] Inr by (simp add: w1_def)
      define r where "r = (if state (panes w2 ! i) = ''open'' then expand L w2 i else collapse L w2 i)"
      have c3: "consistent (after r)"
        unfolding r_def using c2' by (simp add: consistent_expand consistent_collapse)
      have l3: "length (panes (after r)) = length (panes w)"
        unfolding r_def using l2 by (simp add: expand_fields collapse_fields)
      have eq: "clickHandle L w i = (case r of Inl e \<Rightarrow> Inl e | Inr w3 \<Rightarrow> Inr (w3\<lparr>current := Some i\<rparr>))"
        using i Some Inr by (simp add: clickHandle_def w1_def r_def)
      show ?thesis
      proof (cases r)
        case (Inl e)
        then show ?thesis using c3 eq by (cases e) simp
      next
        case (Inr w3)
        then show ?thesis using c3 l3 i eq by (simp add: consistent_set_current)
      qed
    qed
  qed
qed

lemma consistent_tick:
  assumes c: "consistent w"
  shows "consistent (tick k v w)"
  by (rule consistent_same [OF c]) (simp_all add: tick_def)

lemma finish_fields:
  "options (finish k w) = options w"
  "el (finish k w) = el w"
  "current (finish k w) = current w"
  "length (panes (finish k w)) = length (panes w)"
  by (simp_all add: finish_def Let_def split: kind.splits)

lemma finish_panes:
  "k < length (pending w) \<Longrightarrow>
     panes (finish k w) =
       (panes w)[job_index (pending w ! k) := (panes w ! job_index (pending w ! k))\<lparr>isRunning := False\<rparr>]"
  "k < length (pending w) \<Longrightarrow>
     pending (finish k w) = take k (pending w) @ drop (Suc k) (pending w)"
  by (simp_all add: finish_def Let_def split: kind.splits)

lemma consistent_finish:
  assumes c: "consistent w"
  shows "consistent (finish k w)"
proof (cases "k < length (pending w)")
  case False
  then show ?thesis using c by (simp add: finish_def)
next
  case k: True
  define m where "m = job_index (pending w ! k)"
  have m: "m < length (panes w)"
    unfolding m_def using consistentD(4) [OF c, of "pending w ! k"] k by simp
  have one: "length (jobs_for m (pending w)) = 1"
    using consistentD(5) [OF c m] jobs_for_member [of "pending w ! k" "pending w"] k
    by (simp add: m_def split: if_splits)
  note fp = finish_panes [OF k, folded m_def]
  show ?thesis
  proof (rule consistentI)
    fix n assume "n < length (panes (finish k w))"
    then show "index (panes (finish k w) ! n) = n"
      using consistentD(1) [OF c, of n] by (cases "n = m") (simp_all add: fp)
  next
    fix n assume "n < length (panes (finish k w))"
    then show "state (panes (finish k w) ! n) = ''open'' \<or> state (panes (finish k w) ! n) = ''close''"
      using consistentD(2) [OF c, of n] by (cases "n = m") (simp_all add: fp)
  next
    fix c' assume "current (finish k w) = Some c'"
    then show "c' < length (panes (finish k w))"
      using consistentD(3) [OF c, of c'] by (simp add: finish_fields)
  next
    fix j assume "j \<in> set (pending (finish k w))"
    then have "j \<in> set (pending w)"
      by (auto simp: fp dest: in_set_takeD in_set_dropD)
    then show "job_index j < length (panes (finish k w))"
      using consistentD(4) [OF c, of j] by (simp add: finish_fields)
  next
    fix n assume n: "n < length (panes (finish k w))"
    then have n': "n < length (panes w)" by (simp add: finish_fields)
    show "length (jobs_for n (pending (finish k w))) =
            (if isRunning (panes (finish k w) ! n) then 1 else 0)"
    proof -
      have wo: "length (jobs_for n (pending (finish k w))) =
                  length (jobs_for n (pending w)) - (if m = n then 1 else 0)"
        unfolding fp(2) m_def by (rule jobs_for_without [OF k])
      show ?thesis
      proof (cases "n = m")
        case True
        then show ?thesis using one m wo by (simp add: fp(1))
      next
        case False
        then show ?thesis
          using consistentD(5) [OF c n'] wo by (simp add: fp(1))
      qed
    qed
  qed
qed

lemma consistent_step: "consistent w \<Longrightarrow> consistent (step w a)"
  by (cases a)
     (simp_all add: consistent_clickHandle consistent_expand consistent_collapse
        consistent_tick consistent_finish)

lemma consistent_run: "consistent w \<Longrightarrow> consistent (run w acts)"
  unfolding run_def by (induction acts arbitrary: w) (simp_all add: consistent_step)

subsection \<open>The constructor builds a consistent widget\<close>

lemma createPanel_Inr:
  assumes "createPanel b t i w = Inr (obj, w')"
  shows "index obj = i" "\<not> isRunning obj" "state obj = ''open'' \<or> state obj = ''close''"
    "pending w' = pending w" "trace w' = trace w" "options w' = options w"
    "current w' = current w \<or> current w' = Some i"
  using assms
  by (auto simp: createPanel_def Let_def split: option.splits if_splits)

lemma map_panels_Inr:
  "map_panels i bs w = Inr (objs, w') \<Longrightarrow>
     length objs = length bs \<and> (\<forall>k<length objs. index (objs ! k) = i + k) \<and>
     (\<forall>p\<in>set objs. \<not> isRunning p \<and> (state p = ''open'' \<or> state p = ''close'')) \<and>
     pending w' = pending w \<and> trace w' = trace w \<and> options w' = options w \<and>
     (current w' = current w \<or> (\<exists>c. current w' = Some c \<and> i \<le> c \<and> c < i + length bs))"
proof (induction bs arbitrary: i w objs w')
  case Nil
  then show ?case by simp
next
  case (Cons bt bs)
  obtain b t where bt: "bt = (b, t)" by (cases bt)
  from Cons.prems obtain obj w1 objs' where
    cp: "createPanel b t i w = Inr (obj, w1)"
    and mp: "map_panels (Suc i) bs w1 = Inr (objs', w')"
    and objs: "objs = obj # objs'"
    by (auto simp: bt split: sum.splits prod.splits)
  note ih = Cons.IH [OF mp]
  note c1 = createPanel_Inr [OF cp]
  have "length objs = length (bt # bs)"
    using ih by (simp add: objs)
  moreover have "\<forall>k<length objs. index (objs ! k) = i + k"
    using ih c1(1) by (simp add: objs nth_Cons split: nat.splits)
  moreover have "\<forall>p\<in>set objs. \<not> isRunning p \<and> (state p = ''open'' \<or> state p = ''close'')"
    using ih c1(2,3) by (simp add: objs)
  moreover have "pending w' = pending w" "trace w' = trace w" "options w' = options w"
    using ih c1(4,5,6) by simp_all
  moreover have "current w' = current w \<or> (\<exists>c. current w' = Some c \<and> i \<le> c \<and> c < i + length (bt # bs))"
    using ih c1(7) by auto
  ultimately show ?case by blast
qed

lemma constructor_Inr:
  assumes "constructor opts e found d = Inr w"
  shows "consistent w" "pending w = []" "trace w = []" "options w = opts"
    "length (panes w) = length found" "\<forall>p\<in>set (panes w). \<not> isRunning p"
proof -
  let ?w0 = "\<lparr>options = opts, el = e, panes = [], current = None, document = d,
               pending = [], trace = []\<rparr>"
  from assms obtain objs w1 where mp: "map_panels 0 found ?w0 = Inr (objs, w1)"
    and p: "panes w = objs" and pe: "pending w = pending w1" and tr: "trace w = trace w1"
    and o: "options w = options w1" and cu: "current w = current w1"
    by (auto simp: constructor_def init_def createPanels_def split: sum.splits prod.splits)
  note m = map_panels_Inr [OF mp]
  have len: "length objs = length found"
    using m by simp
  show "pending w = []" "trace w = []" "options w = opts"
    using m pe tr o by simp_all
  show "length (panes w) = length found" using p len by simp
  show nr: "\<forall>p\<in>set (panes w). \<not> isRunning p" using m p by simp
  show "consistent w"
  proof (rule consistentI)
    fix k assume "k < length (panes w)"
    then show "index (panes w ! k) = k"
      using m p by simp
  next
    fix k assume "k < length (panes w)"
    then show "state (panes w ! k) = ''open'' \<or> state (panes w ! k) = ''close''"
      using m p by simp
  next
    fix c assume "current w = Some c"
    then show "c < length (panes w)" using m cu p len by auto
  next
    fix j assume "j \<in> set (pending w)"
    then show "job_index j < length (panes w)" using m pe by simp
  next
    fix k assume "k < length (panes w)"
    then show "length (jobs_for k (pending w)) = (if isRunning (panes w ! k) then 1 else 0)"
      using nr m pe by (simp add: jobs_for_def)
  qed
qed

section \<open>The claims\<close>

subsection \<open>C1: expand and collapse of a running pane\<close>

lemma jobs_for_bound:
  assumes c: "consistent w"
  shows "length (jobs_for i (pending w)) \<le> 1"
proof (cases "i < length (panes w)")
  case True
  then show ?thesis using consistentD(5) [OF c True] by simp
next
  case False
  have "jobs_for i (pending w) = []"
    unfolding jobs_for_def filter_empty_conv
    using consistentD(4) [OF c] False by auto
  then show ?thesis by simp
qed

lemma demo_construct: "constructor defaults 0 found2 page = Inr demo"
  by (simp add: demo_def constructor_def init_def createPanels_def createPanel_def found2_def
      defaults_def Let_def)

lemma demo_x_construct: "constructor exclusive 0 found2 page = Inr demo_x"
  by (simp add: demo_x_def constructor_def init_def createPanels_def createPanel_def found2_def
      exclusive_def defaults_def Let_def)

lemma demo_fields:
  "panes demo =
     [\<lparr>button = 1, target = 2, index = 0, open = False, isRunning = False, state = ''close''\<rparr>,
      \<lparr>button = 3, target = 4, index = 1, open = False, isRunning = False, state = ''close''\<rparr>]"
  "current demo = None" "pending demo = []" "trace demo = []" "options demo = defaults"
  by (simp_all add: demo_def constructor_def init_def createPanels_def createPanel_def found2_def
      defaults_def Let_def)

lemma demo_x_fields:
  "panes demo_x =
     [\<lparr>button = 1, target = 2, index = 0, open = False, isRunning = False, state = ''close''\<rparr>,
      \<lparr>button = 3, target = 4, index = 1, open = False, isRunning = False, state = ''close''\<rparr>]"
  "current demo_x = None" "pending demo_x = []" "trace demo_x = []" "options demo_x = exclusive"
  by (simp_all add: demo_x_def constructor_def init_def createPanels_def createPanel_def found2_def
      exclusive_def defaults_def Let_def)

lemma quiet_emit: "emit_with quiet nm i w = emit nm i w"
  by (simp add: emit_with_def quiet_def)

lemma quiet_listeners:
  "expand_with quiet L w i = expand L w i"
  "collapse_with quiet L w i = collapse L w i"
  unfolding expand_with_def expand_def collapse_with_def collapse_def quiet_emit
  by (rule refl)+

text \<open>
  With listeners that leave the widget alone, which is what the steps of a run are made
  of, no pane has two animations running, from the constructor on and whatever happens.
\<close>

lemma one_animation_when_quiet:
  assumes "constructor opts e found d = Inr w0"
  shows "length (jobs_for i (pending (run w0 acts))) \<le> 1"
  by (rule jobs_for_bound [OF consistent_run [OF constructor_Inr(1) [OF assms]]])





subsection \<open>C2: the state of a pane\<close>

lemma states_expand: "map state (panes (after (expand L w i))) = map state (panes w)"
  using expand_panes [of L w i] by (auto simp: map_update list_update_same_conv)

lemma states_collapse: "map state (panes (after (collapse L w i))) = map state (panes w)"
  using collapse_panes [of L w i] by (auto simp: map_update list_update_same_conv)

lemma states_tick: "map state (panes (tick k v w)) = map state (panes w)"
  by (simp add: tick_def)

lemma states_finish: "map state (panes (finish k w)) = map state (panes w)"
proof (cases "k < length (pending w)")
  case True
  show ?thesis
    unfolding finish_panes(1) [OF True]
    by (cases "job_index (pending w ! k) < length (panes w)")
       (simp_all add: map_update list_update_same_conv list_update_beyond)
next
  case False
  then show ?thesis by (simp add: finish_def)
qed

lemma state_nth:
  "map state (panes w') = map state (panes w) \<Longrightarrow> i < length (panes w) \<Longrightarrow>
     state (panes w' ! i) = state (panes w ! i)"
  by (metis length_map nth_map)

lemma close_current_state:
  assumes c: "consistent w" and i: "i < length (panes w)"
  shows "state (panes (after (close_current L w i)) ! i) = state (panes w ! i)"
proof (cases "current w")
  case None
  then show ?thesis by (simp add: close_current_def)
next
  case (Some k)
  have k: "k < length (panes w)" by (rule consistentD(3) [OF c Some])
  have ik: "index (panes w ! k) = k" by (rule consistentD(1) [OF c k])
  show ?thesis
  proof (cases "closeOthers (options w) \<and> k \<noteq> i")
    case False
    then show ?thesis using Some ik by (auto simp: close_current_def)
  next
    case True
    show ?thesis
    proof (cases "map_of machine (state (panes w ! k))")
      case None
      then show ?thesis using Some True ik by (simp add: close_current_def)
    next
      case s: (Some s)
      let ?w1 = "upd_pane k (\<lambda>p. p\<lparr>state := s\<rparr>) w"
      have "state (panes (after (collapse L ?w1 k)) ! i) = state (panes ?w1 ! i)"
        by (rule state_nth [OF states_collapse]) (use i in simp)
      then show ?thesis using Some True ik s by (simp add: close_current_def)
    qed
  qed
qed

lemma close_current_off:
  "\<not> closeOthers (options w) \<Longrightarrow> close_current L w i = Inr w"
  by (simp add: close_current_def split: option.splits)

lemma clickHandle_split:
  assumes i: "i < length (panes w)" and s: "map_of machine (state (panes w ! i)) = Some s"
  shows "after (clickHandle L w i) =
     (case close_current L (upd_pane i (\<lambda>p. p\<lparr>state := s\<rparr>) w) i of
        Inl e \<Rightarrow> snd e
      | Inr w2 \<Rightarrow>
          (case (if state (panes w2 ! i) = ''open'' then expand L w2 i else collapse L w2 i) of
             Inl e \<Rightarrow> snd e
           | Inr w3 \<Rightarrow> w3\<lparr>current := Some i\<rparr>))"
  using i s by (auto simp: clickHandle_def split: sum.splits)

lemma clickHandle_states:
  assumes i: "i < length (panes w)" and s: "map_of machine (state (panes w ! i)) = Some s"
  shows "map state (panes (after (clickHandle L w i))) =
         map state (panes (after (close_current L (upd_pane i (\<lambda>p. p\<lparr>state := s\<rparr>) w) i)))"
proof -
  let ?r = "close_current L (upd_pane i (\<lambda>p. p\<lparr>state := s\<rparr>) w) i"
  show ?thesis
  proof (cases ?r)
    case (Inl e)
    then show ?thesis unfolding clickHandle_split [OF i s] by (cases e) simp
  next
    case (Inr w2)
    show ?thesis
    proof (cases "state (panes w2 ! i) = ''open''")
      case True
      then show ?thesis
        unfolding clickHandle_split [OF i s] Inr
        using states_expand [of L w2 i] by (cases "expand L w2 i") auto
    next
      case False
      then show ?thesis
        unfolding clickHandle_split [OF i s] Inr
        using states_collapse [of L w2 i] by (cases "collapse L w2 i") auto
    qed
  qed
qed

lemma click_toggles:
  assumes c: "consistent w" and i: "i < length (panes w)"
  shows "state (panes (after (clickHandle L w i)) ! i) = toggle (state (panes w ! i))"
proof -
  let ?s = "toggle (state (panes w ! i))"
  let ?w1 = "upd_pane i (\<lambda>p. p\<lparr>state := ?s\<rparr>) w"
  have s: "map_of machine (state (panes w ! i)) = Some ?s"
    by (rule machine_defined [OF consistentD(2) [OF c i]])
  have v: "?s = ''open'' \<or> ?s = ''close''" by (rule machine_range [OF s])
  have c1: "consistent ?w1" by (rule consistent_set_state [OF c v])
  have i1: "i < length (panes ?w1)" using i by simp
  have l: "length (panes (after (close_current L ?w1 i))) = length (panes w)"
    by (simp add: close_current_fields)
  have "state (panes (after (clickHandle L w i)) ! i) =
        state (panes (after (close_current L ?w1 i)) ! i)"
    by (rule state_nth [OF clickHandle_states [OF i s]]) (use l i in simp)
  also have "\<dots> = state (panes ?w1 ! i)"
    by (rule close_current_state [OF c1 i1])
  also have "\<dots> = ?s" using i by simp
  finally show ?thesis .
qed

lemma click_elsewhere:
  assumes c: "consistent w" and i: "i < length (panes w)" and j: "j \<noteq> i"
    and off: "\<not> closeOthers (options w)"
  shows "state (panes (after (clickHandle L w j)) ! i) = state (panes w ! i)"
proof (cases "j < length (panes w)")
  case False
  then show ?thesis by (simp add: clickHandle_def)
next
  case True
  let ?s = "toggle (state (panes w ! j))"
  let ?w1 = "upd_pane j (\<lambda>p. p\<lparr>state := ?s\<rparr>) w"
  have s: "map_of machine (state (panes w ! j)) = Some ?s"
    by (rule machine_defined [OF consistentD(2) [OF c True]])
  have cc: "close_current L ?w1 j = Inr ?w1"
    by (rule close_current_off) (use off in simp)
  have "state (panes (after (clickHandle L w j)) ! i) =
        state (panes (after (close_current L ?w1 j)) ! i)"
    by (rule state_nth [OF clickHandle_states [OF True s]]) (use i in \<open>simp add: close_current_fields\<close>)
  also have "\<dots> = state (panes w ! i)" using j i by (simp add: cc)
  finally show ?thesis .
qed

lemma clickHandle_shape:
  assumes i: "i < length (panes w)" and s: "map_of machine (state (panes w ! i)) = Some s"
  shows "\<exists>w2 w3. w2 = after (close_current L (upd_pane i (\<lambda>p. p\<lparr>state := s\<rparr>) w) i) \<and>
           (w3 = w2 \<or> w3 = after (expand L w2 i) \<or> w3 = after (collapse L w2 i)) \<and>
           (after (clickHandle L w i) = w3 \<or> after (clickHandle L w i) = w3\<lparr>current := Some i\<rparr>)"
proof -
  let ?r = "close_current L (upd_pane i (\<lambda>p. p\<lparr>state := s\<rparr>) w) i"
  show ?thesis
  proof (cases ?r)
    case (Inl e)
    then show ?thesis unfolding clickHandle_split [OF i s] by (cases e) auto
  next
    case (Inr w2)
    show ?thesis
    proof (cases "state (panes w2 ! i) = ''open''")
      case True
      then show ?thesis
        unfolding clickHandle_split [OF i s] Inr
        by (cases "expand L w2 i") auto
    next
      case False
      then show ?thesis
        unfolding clickHandle_split [OF i s] Inr
        by (cases "collapse L w2 i") auto
    qed
  qed
qed

lemma clickHandle_fields:
  "options (after (clickHandle L w i)) = options w"
  "el (after (clickHandle L w i)) = el w"
  "length (panes (after (clickHandle L w i))) = length (panes w)"
proof -
  have "options (after (clickHandle L w i)) = options w \<and>
        el (after (clickHandle L w i)) = el w \<and>
        length (panes (after (clickHandle L w i))) = length (panes w)"
  proof (cases "i < length (panes w)")
    case False
    then show ?thesis by (simp add: clickHandle_def)
  next
    case i: True
    show ?thesis
    proof (cases "map_of machine (state (panes w ! i))")
      case None
      then show ?thesis using i by (simp add: clickHandle_def)
    next
      case (Some s)
      from clickHandle_shape [OF i Some, of L] obtain w2 w3 where
        w2: "w2 = after (close_current L (upd_pane i (\<lambda>p. p\<lparr>state := s\<rparr>) w) i)"
        and w3: "w3 = w2 \<or> w3 = after (expand L w2 i) \<or> w3 = after (collapse L w2 i)"
        and r: "after (clickHandle L w i) = w3 \<or> after (clickHandle L w i) = w3\<lparr>current := Some i\<rparr>"
        by blast
      have f2: "options w2 = options w \<and> el w2 = el w \<and> length (panes w2) = length (panes w)"
        unfolding w2 by (simp add: close_current_fields)
      have f3: "options w3 = options w \<and> el w3 = el w \<and> length (panes w3) = length (panes w)"
        using w3 f2 by (auto simp: expand_fields collapse_fields)
      show ?thesis using r f3 by auto
    qed
  qed
  then show "options (after (clickHandle L w i)) = options w"
    "el (after (clickHandle L w i)) = el w"
    "length (panes (after (clickHandle L w i))) = length (panes w)"
    by simp_all
qed

lemma step_fields:
  "options (step w a) = options w"
  "el (step w a) = el w"
  "length (panes (step w a)) = length (panes w)"
  by (cases a; simp add: clickHandle_fields expand_fields collapse_fields tick_def finish_fields)+

lemma run_snoc: "run w (acts @ [a]) = step (run w acts) a"
  by (simp add: run_def)

lemma run_fields:
  "options (run w acts) = options w"
  "el (run w acts) = el w"
  "length (panes (run w acts)) = length (panes w)"
proof -
  have "options (run w acts) = options w \<and> el (run w acts) = el w \<and>
        length (panes (run w acts)) = length (panes w)"
  proof (induction acts rule: rev_induct)
    case Nil
    show ?case by (simp add: run_def)
  next
    case (snoc a acts)
    then show ?case by (simp add: run_snoc step_fields)
  qed
  then show "options (run w acts) = options w" "el (run w acts) = el w"
    "length (panes (run w acts)) = length (panes w)"
    by simp_all
qed

lemma step_state:
  assumes c: "consistent w" and i: "i < length (panes w)"
    and a: "closeOthers (options w) \<longrightarrow> is_click a \<longrightarrow> is_click_on i a"
  shows "state (panes (step w a) ! i) =
           (if is_click_on i a then toggle (state (panes w ! i)) else state (panes w ! i))"
proof (cases a)
  case (Click L j)
  show ?thesis
  proof (cases "j = i")
    case True
    then show ?thesis using Click click_toggles [OF c i] by simp
  next
    case False
    then have "\<not> closeOthers (options w)" using a Click by auto
    then show ?thesis using Click False click_elsewhere [OF c i False] by simp
  qed
next
  case (Expand L j)
  then show ?thesis using state_nth [OF states_expand i] by simp
next
  case (Collapse L j)
  then show ?thesis using state_nth [OF states_collapse i] by simp
next
  case (Tick k v)
  then show ?thesis using state_nth [OF states_tick i] by simp
next
  case (Finish k)
  then show ?thesis using state_nth [OF states_finish i] by simp
qed

lemma run_state:
  assumes c: "consistent w" and i: "i < length (panes w)"
  shows "(closeOthers (options w) \<longrightarrow> (\<forall>a\<in>set acts. is_click a \<longrightarrow> is_click_on i a)) \<Longrightarrow>
         state (panes (run w acts) ! i) =
           (toggle ^^ length (filter (is_click_on i) acts)) (state (panes w ! i))"
proof (induction acts rule: rev_induct)
  case Nil
  then show ?case by (simp add: run_def)
next
  case (snoc a acts)
  have ih: "state (panes (run w acts) ! i) =
           (toggle ^^ length (filter (is_click_on i) acts)) (state (panes w ! i))"
    using snoc by auto
  have c': "consistent (run w acts)" by (rule consistent_run [OF c])
  have i': "i < length (panes (run w acts))" using i by (simp add: run_fields)
  have a: "closeOthers (options (run w acts)) \<longrightarrow> is_click a \<longrightarrow> is_click_on i a"
    using snoc.prems by (simp add: run_fields)
  show ?case
    unfolding run_snoc step_state [OF c' i' a] ih by simp
qed

lemma toggle_flips: "s = ''open'' \<or> s = ''close'' \<Longrightarrow> toggle s \<noteq> s"
  by auto

text \<open>
  C2. From the constructor on and whatever happens (clicks, calls from outside, values
  from the animator and ends of animations, in any order), the state of a pane is \<open>open\<close>
  or \<open>close\<close>; a click on the pane replaces the state by the one that \<open>machine\<close> names,
  which is the other one, whether or not an animation is running; and in a run whose
  clicks are all on this pane (or any run, when \<open>closeOthers\<close> is off) the state is the
  first state stepped through the table once for every click on the pane.
\<close>

theorem state_alternates:
  assumes w0: "constructor opts e found d = Inr w0" and i: "i < length (panes w0)"
  shows "(state (panes (run w0 acts) ! i) = ''open'' \<or> state (panes (run w0 acts) ! i) = ''close'') \<and>
     state (panes (step (run w0 acts) (Click L i)) ! i) = toggle (state (panes (run w0 acts) ! i)) \<and>
     toggle (state (panes (run w0 acts) ! i)) \<noteq> state (panes (run w0 acts) ! i) \<and>
     ((closeOthers opts \<longrightarrow> (\<forall>a\<in>set acts. is_click a \<longrightarrow> is_click_on i a)) \<longrightarrow>
        state (panes (run w0 acts) ! i) =
          (toggle ^^ length (filter (is_click_on i) acts)) (state (panes w0 ! i)))"
proof -
  have c0: "consistent w0" by (rule constructor_Inr(1) [OF w0])
  have o: "options w0 = opts" by (rule constructor_Inr(4) [OF w0])
  have c: "consistent (run w0 acts)" by (rule consistent_run [OF c0])
  have i': "i < length (panes (run w0 acts))" using i by (simp add: run_fields)
  have v: "state (panes (run w0 acts) ! i) = ''open'' \<or> state (panes (run w0 acts) ! i) = ''close''"
    by (rule consistentD(2) [OF c i'])
  have t: "state (panes (step (run w0 acts) (Click L i)) ! i) = toggle (state (panes (run w0 acts) ! i))"
    using click_toggles [OF c i'] by simp
  have r: "(closeOthers opts \<longrightarrow> (\<forall>a\<in>set acts. is_click a \<longrightarrow> is_click_on i a)) \<longrightarrow>
        state (panes (run w0 acts) ! i) =
          (toggle ^^ length (filter (is_click_on i) acts)) (state (panes w0 ! i))"
    using run_state [OF c0 i, of acts] o by simp
  show ?thesis using v t toggle_flips [OF v] r by blast
qed

theorem state_alternates_witness:
  "constructor exclusive 0 found2 page = Inr demo_x \<and> 0 < length (panes demo_x) \<and>
   filter is_click [Click measured 0, Tick 0 5, Click measured 0, Finish 0, Click unmeasured 0] =
     filter (is_click_on 0) [Click measured 0, Tick 0 5, Click measured 0, Finish 0, Click unmeasured 0] \<and>
   state (panes (run demo_x [Click measured 0, Tick 0 5, Click measured 0, Finish 0, Click unmeasured 0]) ! 0)
     = ''open'' \<and>
   state (panes (step (run demo_x [Click measured 0, Tick 0 5, Click measured 0, Finish 0, Click unmeasured 0])
     (Click measured 0)) ! 0) = ''close''"
proof -
  have l: "0 < length (panes demo_x)" by (simp add: demo_x_fields)
  have h: "closeOthers exclusive \<longrightarrow>
      (\<forall>a\<in>set [Click measured 0, Tick 0 5, Click measured 0, Finish 0, Click unmeasured 0].
          is_click a \<longrightarrow> is_click_on 0 a)"
    by simp
  have n: "length (filter (is_click_on 0)
      [Click measured 0, Tick 0 5, Click measured 0, Finish 0, Click unmeasured 0]) = Suc (Suc (Suc 0))"
    by simp
  show ?thesis
    using state_alternates [OF demo_x_construct l,
        of "[Click measured 0, Tick 0 5, Click measured 0, Finish 0, Click unmeasured 0]" measured]
      h l demo_x_construct
    unfolding n by (simp add: demo_x_fields)
qed

subsection \<open>C3: closeOthers and a click during an animation\<close>

lemma round_measured [simp]: "round (602 / 5 :: real) = 120"
  unfolding round_def by (rule floor_unique) simp_all

lemmas click_defs = clickHandle_def close_current_def expand_def collapse_def machine_def
  Let_def measured_def exclusive_def defaults_def

text \<open>
  C3. Two panes, \<open>closeOthers\<close> on, both closed. Pane 0 is clicked and, before its
  animation ends, pane 1 is clicked: the \<open>collapse\<close> of pane 0 that \<open>clickHandle\<close> asks
  for finds \<open>isRunning\<close> set and does nothing. When both animations have ended, both
  panes are open, and pane 0 is open with state \<open>close\<close>.
\<close>

theorem close_others_race:
  "pending (run demo_x [Click measured 0, Click measured 1, Finish 0, Finish 0]) = [] \<and>
   map open (panes (run demo_x [Click measured 0, Click measured 1, Finish 0, Finish 0])) = [True, True] \<and>
   map state (panes (run demo_x [Click measured 0, Click measured 1, Finish 0, Finish 0])) = [''close'', ''open''] \<and>
   closeOthers (options (run demo_x [Click measured 0, Click measured 1, Finish 0, Finish 0]))"
proof -
  define w1 where "w1 = step demo_x (Click measured 0)"
  define w2 where "w2 = step w1 (Click measured 1)"
  define w3 where "w3 = step w2 (Finish 0)"
  define w4 where "w4 = step w3 (Finish 0)"
  have r: "run demo_x [Click measured 0, Click measured 1, Finish 0, Finish 0] = w4"
    by (simp add: run_def w1_def w2_def w3_def w4_def)
  have f1: "panes w1 =
      [\<lparr>button = 1, target = 2, index = 0, open = True, isRunning = True, state = ''open''\<rparr>,
       \<lparr>button = 3, target = 4, index = 1, open = False, isRunning = False, state = ''close''\<rparr>]"
    "current w1 = Some 0" "options w1 = exclusive"
    "pending w1 = [\<lparr>job_tween = \<lparr>tw_start = 0, tw_end = 120, tw_duration = 300,
        tw_easing = defaultEasing\<rparr>, job_index = 0, job_kind = Expanding\<rparr>]"
    unfolding w1_def by (simp_all add: click_defs demo_x_fields)
  have f2: "panes w2 =
      [\<lparr>button = 1, target = 2, index = 0, open = True, isRunning = True, state = ''close''\<rparr>,
       \<lparr>button = 3, target = 4, index = 1, open = True, isRunning = True, state = ''open''\<rparr>]"
    "current w2 = Some 1" "options w2 = exclusive"
    "pending w2 = [\<lparr>job_tween = \<lparr>tw_start = 0, tw_end = 120, tw_duration = 300,
        tw_easing = defaultEasing\<rparr>, job_index = 0, job_kind = Expanding\<rparr>,
      \<lparr>job_tween = \<lparr>tw_start = 0, tw_end = 120, tw_duration = 300,
        tw_easing = defaultEasing\<rparr>, job_index = 1, job_kind = Expanding\<rparr>]"
    unfolding w2_def by (simp_all add: click_defs f1)
  have f3: "panes w3 =
      [\<lparr>button = 1, target = 2, index = 0, open = True, isRunning = False, state = ''close''\<rparr>,
       \<lparr>button = 3, target = 4, index = 1, open = True, isRunning = True, state = ''open''\<rparr>]"
    "options w3 = exclusive"
    "pending w3 = [\<lparr>job_tween = \<lparr>tw_start = 0, tw_end = 120, tw_duration = 300,
        tw_easing = defaultEasing\<rparr>, job_index = 1, job_kind = Expanding\<rparr>]"
    unfolding w3_def by (simp_all add: finish_def Let_def f2)
  have f4: "panes w4 =
      [\<lparr>button = 1, target = 2, index = 0, open = True, isRunning = False, state = ''close''\<rparr>,
       \<lparr>button = 3, target = 4, index = 1, open = True, isRunning = False, state = ''open''\<rparr>]"
    "options w4 = exclusive" "pending w4 = []"
    unfolding w4_def by (simp_all add: finish_def Let_def f3)
  show ?thesis unfolding r by (simp add: f4 exclusive_def)
qed

subsection \<open>What expand, collapse and the end of an animation do\<close>

lemma style_cleared [simp]:
  "s\<lparr>willChange := '''', height := HEmpty, display := ''''\<rparr> = cleared"
  by (cases s) (simp add: cleared_def)

lemma expand_runs:
  assumes i: "i < length (panes w)" and nr: "\<not> isRunning (panes w ! i)"
    and h: "L (target (panes w ! i)) = Some h"
  shows "expand L w i = Inr (after (expand L w i))"
    and "panes (after (expand L w i)) = (panes w)[i := (panes w ! i)\<lparr>isRunning := True, open := True\<rparr>]"
    and "document (after (expand L w i)) =
           (document w)(target (panes w ! i) := (document w (target (panes w ! i)))
              \<lparr>style := (style (document w (target (panes w ! i))))
                 \<lparr>display := ''block'', height := HZero, willChange := ''height''\<rparr>\<rparr>)"
    and "pending (after (expand L w i)) = pending w @
           [\<lparr>job_tween = \<lparr>tw_start = 0, tw_end = round h, tw_duration = duration (options w),
               tw_easing = easing (options w)\<rparr>, job_index = i, job_kind = Expanding\<rparr>]"
    and "trace (after (expand L w i)) = trace w @
           [Emitted ''spon:open''
              \<lparr>pl_pane = panes (after (expand L w i)) ! i, pl_index = i,
                pl_panes = panes (after (expand L w i))\<rparr>
              (document (after (expand L w i))),
            FromTo \<lparr>tw_start = 0, tw_end = round h, tw_duration = duration (options w),
               tw_easing = easing (options w)\<rparr> i]"
  using i nr h by (simp_all add: expand_def Let_def)

lemma collapse_runs:
  assumes i: "i < length (panes w)" and nr: "\<not> isRunning (panes w ! i)"
    and h: "L (target (panes w ! i)) = Some h"
  shows "collapse L w i = Inr (after (collapse L w i))"
    and "panes (after (collapse L w i)) = (panes w)[i := (panes w ! i)\<lparr>open := False, isRunning := True\<rparr>]"
    and "document (after (collapse L w i)) =
           (document w)(target (panes w ! i) := (document w (target (panes w ! i)))
              \<lparr>style := (style (document w (target (panes w ! i))))
                 \<lparr>height := HPx h, willChange := ''height''\<rparr>\<rparr>)"
    and "pending (after (collapse L w i)) = pending w @
           [\<lparr>job_tween = \<lparr>tw_start = round h, tw_end = 0, tw_duration = duration (options w),
               tw_easing = easing (options w)\<rparr>, job_index = i, job_kind = Collapsing\<rparr>]"
    and "trace (after (collapse L w i)) = trace w @
           [Emitted ''spon:close''
              \<lparr>pl_pane = (panes w ! i)\<lparr>open := False\<rparr>, pl_index = i,
                pl_panes = (panes w)[i := (panes w ! i)\<lparr>open := False\<rparr>]\<rparr>
              (document (after (collapse L w i))),
            FromTo \<lparr>tw_start = round h, tw_end = 0, tw_duration = duration (options w),
               tw_easing = easing (options w)\<rparr> i]"
  using i nr h by (simp_all add: collapse_def Let_def)

lemma onEnd_page:
  assumes i: "i < length (panes w)"
  shows "style (document (onEnd i w) (target (panes w ! i))) = cleared"
    and "attributes (document (onEnd i w) (button (panes w ! i))) ''aria-expanded'' =
           Some (bool_str (open (panes w ! i)))"
    and "attributes (document (onEnd i w) (button (panes w ! i))) ''aria-selected'' =
           Some (bool_str (open (panes w ! i)))"
    and "attributes (document (onEnd i w) (target (panes w ! i))) ''aria-hidden'' =
           Some (bool_str (\<not> open (panes w ! i)))"
  using i by (simp_all add: onEnd_def Let_def setAttribute_def)

lemma onEnd_pane:
  assumes i: "i < length (panes w)"
  shows "panes (onEnd i w) ! i = (panes w ! i)\<lparr>isRunning := False\<rparr>"
  using i by simp

lemma classList_keeps [simp]:
  "style (classList_add c e) = style e"
  "attributes (classList_add c e) = attributes e"
  "style (classList_remove c e) = style e"
  "attributes (classList_remove c e) = attributes e"
  by (simp_all add: classList_add_def classList_remove_def)

lemma restored_onEnd:
  assumes i: "i < length (panes w)"
  shows "restored (panes w ! i) (document (onEnd i w))"
  unfolding restored_def using onEnd_page [OF i] by simp

lemma restored_upd:
  assumes r: "restored p d" and f: "style (f (d n)) = style (d n)" "attributes (f (d n)) = attributes (d n)"
  shows "restored p (d(n := f (d n)))"
  using r f unfolding restored_def by auto

lemma restored_pane:
  "restored p d \<Longrightarrow> restored (p\<lparr>isRunning := b\<rparr>) d"
  by (simp add: restored_def)

lemma callback_restores:
  assumes i: "i < length (panes w)"
  shows "restored (panes w ! i) (document (then_opened i w))"
    and "restored (panes w ! i) (document (then_closed i w))"
proof -
  let ?p = "panes w ! i"
  let ?d0 = "document (onEnd i w)"
  have r0: "restored ?p ?d0" by (rule restored_onEnd [OF i])
  let ?a1 = "?d0(button ?p := classList_add (buttonActiveClass (options w)) (?d0 (button ?p)))"
  have a1: "restored ?p ?a1" by (rule restored_upd [OF r0]) simp_all
  have a2: "restored ?p (?a1(target ?p := classList_add (contentActiveClass (options w)) (?a1 (target ?p))))"
    by (rule restored_upd [OF a1]) simp_all
  have "document (then_opened i w) = ?a1(target ?p := classList_add (contentActiveClass (options w)) (?a1 (target ?p)))"
    unfolding then_opened_def Let_def emit_fields upd_node_fields ..
  then show "restored ?p (document (then_opened i w))" using a2 by simp
  let ?b1 = "?d0(button ?p := classList_remove (buttonActiveClass (options w)) (?d0 (button ?p)))"
  have b1: "restored ?p ?b1" by (rule restored_upd [OF r0]) simp_all
  have b2: "restored ?p (?b1(target ?p := classList_remove (contentActiveClass (options w)) (?b1 (target ?p))))"
    by (rule restored_upd [OF b1]) simp_all
  have "document (then_closed i w) = ?b1(target ?p := classList_remove (contentActiveClass (options w)) (?b1 (target ?p)))"
    unfolding then_closed_def Let_def emit_fields upd_node_fields ..
  then show "restored ?p (document (then_closed i w))" using b2 by simp
qed

lemma callback_trace:
  "trace (then_opened i w) = trace w @
     [Emitted ''spon:opened''
        \<lparr>pl_pane = panes (then_opened i w) ! i, pl_index = i, pl_panes = panes (then_opened i w)\<rparr>
        (document (then_opened i w))]"
  "trace (then_closed i w) = trace w @
     [Emitted ''spon:closed''
        \<lparr>pl_pane = panes (then_closed i w) ! i, pl_index = i, pl_panes = panes (then_closed i w)\<rparr>
        (document (then_closed i w))]"
  by (simp_all add: then_opened_def then_closed_def Let_def)

lemma finish_restores:
  assumes k: "k < length (pending w)" and m: "job_index (pending w ! k) < length (panes w)"
  shows "restored (panes w ! job_index (pending w ! k)) (document (finish k w))"
    and "panes (finish k w) ! job_index (pending w ! k) =
           (panes w ! job_index (pending w ! k))\<lparr>isRunning := False\<rparr>"
    and "trace (finish k w) = trace w @
           [Emitted (post_event (job_kind (pending w ! k)))
              \<lparr>pl_pane = panes (finish k w) ! job_index (pending w ! k),
                pl_index = job_index (pending w ! k), pl_panes = panes (finish k w)\<rparr>
              (document (finish k w))]"
proof -
  let ?w1 = "w\<lparr>pending := take k (pending w) @ drop (Suc k) (pending w)\<rparr>"
  let ?m = "job_index (pending w ! k)"
  have m1: "?m < length (panes ?w1)" using m by simp
  show "restored (panes w ! ?m) (document (finish k w))"
    using callback_restores [OF m1] k
    by (cases "job_kind (pending w ! k)") (simp_all add: finish_def Let_def)
  show "panes (finish k w) ! ?m = (panes w ! ?m)\<lparr>isRunning := False\<rparr>"
    using m by (simp add: finish_panes(1) [OF k])
  show "trace (finish k w) = trace w @
           [Emitted (post_event (job_kind (pending w ! k)))
              \<lparr>pl_pane = panes (finish k w) ! ?m, pl_index = ?m, pl_panes = panes (finish k w)\<rparr>
              (document (finish k w))]"
    using k callback_trace [of ?m ?w1]
    by (cases "job_kind (pending w ! k)") (simp_all add: finish_def Let_def)
qed

lemma event_names_append [simp]: "event_names (xs @ ys) = event_names xs @ event_names ys"
  by (induction xs rule: event_names.induct) simp_all

lemma take_drop_last: "take (length xs) (xs @ [x]) @ drop (Suc (length xs)) (xs @ [x]) = xs"
  by simp

lemma round_trip:
  assumes i: "i < length (panes w)" and nr: "\<not> isRunning (panes w ! i)"
    and h1: "L (target (panes w ! i)) = Some h1" and h2: "L' (target (panes w ! i)) = Some h2"
  defines "w1 \<equiv> after (expand L w i)"
  defines "w2 \<equiv> finish (length (pending w)) w1"
  defines "w3 \<equiv> after (collapse L' w2 i)"
  defines "w4 \<equiv> finish (length (pending w)) w3"
  shows "style (document w4 (target (panes w ! i))) = cleared"
    and "pending w4 = pending w"
    and "panes w4 = (panes w)[i := (panes w ! i)\<lparr>open := False, isRunning := False\<rparr>]"
    and "pending w2 = pending w"
    and "panes w2 = (panes w)[i := (panes w ! i)\<lparr>open := True, isRunning := False\<rparr>]"
    and "style (document w2 (target (panes w ! i))) = cleared"
proof -
  note e = expand_runs [of i w L, OF i nr h1, folded w1_def]
  have k1: "length (pending w) < length (pending w1)" by (simp add: e(4))
  have j1: "job_index (pending w1 ! length (pending w)) = i" by (simp add: e(4))
  have m1: "job_index (pending w1 ! length (pending w)) < length (panes w1)"
    unfolding j1 using i by (simp add: e(2))
  show pe2: "pending w2 = pending w"
    unfolding w2_def finish_panes(2) [OF k1] by (simp add: e(4))
  show p2: "panes w2 = (panes w)[i := (panes w ! i)\<lparr>open := True, isRunning := False\<rparr>]"
    unfolding w2_def finish_panes(1) [OF k1] j1 using i by (simp add: e(2))
  have "restored (panes w1 ! i) (document w2)"
    using finish_restores(1) [OF k1 m1] unfolding j1 w2_def .
  then show "style (document w2 (target (panes w ! i))) = cleared"
    using i by (simp add: restored_def e(2))
  have i2: "i < length (panes w2)" using i by (simp add: p2)
  have nr2: "\<not> isRunning (panes w2 ! i)" using i nr by (simp add: p2)
  have t2: "L' (target (panes w2 ! i)) = Some h2" using i h2 by (simp add: p2)
  note c = collapse_runs [of i w2 L', OF i2 nr2 t2, folded w3_def]
  have k3: "length (pending w) < length (pending w3)" by (simp add: c(4) pe2)
  have j3: "job_index (pending w3 ! length (pending w)) = i" by (simp add: c(4) pe2)
  have m3: "job_index (pending w3 ! length (pending w)) < length (panes w3)"
    unfolding j3 using i by (simp add: c(2) p2)
  show "pending w4 = pending w"
    unfolding w4_def finish_panes(2) [OF k3] by (simp add: c(4) pe2)
  show "panes w4 = (panes w)[i := (panes w ! i)\<lparr>open := False, isRunning := False\<rparr>]"
    unfolding w4_def finish_panes(1) [OF k3] j3 using i by (simp add: c(2) p2)
  have "restored (panes w3 ! i) (document w4)"
    using finish_restores(1) [OF k3 m3] unfolding j3 w4_def .
  then show "style (document w4 (target (panes w ! i))) = cleared"
    using i by (simp add: restored_def c(2) p2)
qed

lemma round_trip_events:
  assumes i: "i < length (panes w)" and nr: "\<not> isRunning (panes w ! i)"
    and h1: "L (target (panes w ! i)) = Some h1" and h2: "L' (target (panes w ! i)) = Some h2"
  shows "event_names (trace (finish (length (pending w)) (after (collapse L'
           (finish (length (pending w)) (after (expand L w i))) i)))) =
         event_names (trace w) @ [''spon:open'', ''spon:opened'', ''spon:close'', ''spon:closed'']"
proof -
  define w1 where "w1 = after (expand L w i)"
  define w2 where "w2 = finish (length (pending w)) w1"
  define w3 where "w3 = after (collapse L' w2 i)"
  define w4 where "w4 = finish (length (pending w)) w3"
  note rt = round_trip [where L = L and L' = L', OF i nr h1 h2, folded w1_def w2_def w3_def w4_def]
  note e = expand_runs [of i w L, OF i nr h1, folded w1_def]
  have k1: "length (pending w) < length (pending w1)" by (simp add: e(4))
  have j1: "job_index (pending w1 ! length (pending w)) = i"
    "job_kind (pending w1 ! length (pending w)) = Expanding" by (simp_all add: e(4))
  have m1: "job_index (pending w1 ! length (pending w)) < length (panes w1)"
    unfolding j1 using i by (simp add: e(2))
  have t1: "event_names (trace w1) = event_names (trace w) @ [''spon:open'']"
    unfolding e(5) by simp
  have t2: "event_names (trace w2) = event_names (trace w) @ [''spon:open'', ''spon:opened'']"
    unfolding w2_def finish_restores(3) [OF k1 m1] j1 using t1 by simp
  have i2: "i < length (panes w2)" using i by (simp add: rt(5))
  have nr2: "\<not> isRunning (panes w2 ! i)" using i by (simp add: rt(5))
  have h2': "L' (target (panes w2 ! i)) = Some h2" using i h2 by (simp add: rt(5))
  note c = collapse_runs [of i w2 L', OF i2 nr2 h2', folded w3_def]
  have k3: "length (pending w) < length (pending w3)" by (simp add: c(4) rt(4))
  have j3: "job_index (pending w3 ! length (pending w)) = i"
    "job_kind (pending w3 ! length (pending w)) = Collapsing" by (simp_all add: c(4) rt(4))
  have m3: "job_index (pending w3 ! length (pending w)) < length (panes w3)"
    unfolding j3 using i by (simp add: c(2) rt(5))
  have t3: "event_names (trace w3) =
      event_names (trace w) @ [''spon:open'', ''spon:opened'', ''spon:close'']"
    unfolding c(5) using t2 by simp
  have "event_names (trace w4) =
      event_names (trace w) @ [''spon:open'', ''spon:opened'', ''spon:close'', ''spon:closed'']"
    unfolding w4_def finish_restores(3) [OF k3 m3] j3 using t3 by simp
  then show ?thesis unfolding w4_def w3_def w2_def w1_def .
qed

subsection \<open>C10: the page after onEnd\<close>

lemma restoredD:
  assumes "restored p d"
  shows "willChange (style (d (target p))) = ''''" "height (style (d (target p))) = HEmpty"
    "display (style (d (target p))) = ''''"
    "attributes (d (button p)) ''aria-expanded'' = Some (bool_str (open p))"
    "attributes (d (button p)) ''aria-selected'' = Some (bool_str (open p))"
    "attributes (d (target p)) ''aria-hidden'' = Some (bool_str (\<not> open p))"
  using assms by (simp_all add: restored_def cleared_def)

lemma demo_expanding:
  "panes (after (expand measured demo 0)) =
     [\<lparr>button = 1, target = 2, index = 0, open = True, isRunning = True, state = ''close''\<rparr>,
      \<lparr>button = 3, target = 4, index = 1, open = False, isRunning = False, state = ''close''\<rparr>]"
  "pending (after (expand measured demo 0)) =
     [\<lparr>job_tween = \<lparr>tw_start = 0, tw_end = 120, tw_duration = 300, tw_easing = defaultEasing\<rparr>,
       job_index = 0, job_kind = Expanding\<rparr>]"
  by (simp_all add: expand_def Let_def demo_fields measured_def defaults_def)

text \<open>
  C10. \<open>onEnd\<close> leaves the target of the pane without inline \<open>will-change\<close>, \<open>height\<close> and
  \<open>display\<close>, unsets \<open>isRunning\<close>, and writes the pane's \<open>open\<close> to \<open>aria-expanded\<close> and
  \<open>aria-selected\<close> of the button and its negation to \<open>aria-hidden\<close> of the target. The same
  holds of the widget after the end of any animation that is running in a widget reached
  from the constructor, for the pane of that animation, whose \<open>open\<close> the end leaves as it
  was.
\<close>

theorem onEnd_mirrors_open:
  "(i < length (panes w) \<longrightarrow>
      willChange (style (document (onEnd i w) (target (panes w ! i)))) = '''' \<and>
      height (style (document (onEnd i w) (target (panes w ! i)))) = HEmpty \<and>
      display (style (document (onEnd i w) (target (panes w ! i)))) = '''' \<and>
      \<not> isRunning (panes (onEnd i w) ! i) \<and>
      attributes (document (onEnd i w) (button (panes w ! i))) ''aria-expanded'' =
        Some (bool_str (open (panes w ! i))) \<and>
      attributes (document (onEnd i w) (button (panes w ! i))) ''aria-selected'' =
        Some (bool_str (open (panes w ! i))) \<and>
      attributes (document (onEnd i w) (target (panes w ! i))) ''aria-hidden'' =
        Some (bool_str (\<not> open (panes w ! i)))) \<and>
   (constructor opts e found d = Inr w0 \<and> k < length (pending (run w0 acts)) \<longrightarrow>
      (let w1 = run w0 acts; m = job_index (pending w1 ! k); w2 = finish k w1 in
         m < length (panes w1) \<and>
         open (panes w2 ! m) = open (panes w1 ! m) \<and>
         willChange (style (document w2 (target (panes w2 ! m)))) = '''' \<and>
         height (style (document w2 (target (panes w2 ! m)))) = HEmpty \<and>
         display (style (document w2 (target (panes w2 ! m)))) = '''' \<and>
         \<not> isRunning (panes w2 ! m) \<and>
         attributes (document w2 (button (panes w2 ! m))) ''aria-expanded'' =
           Some (bool_str (open (panes w2 ! m))) \<and>
         attributes (document w2 (button (panes w2 ! m))) ''aria-selected'' =
           Some (bool_str (open (panes w2 ! m))) \<and>
         attributes (document w2 (target (panes w2 ! m))) ''aria-hidden'' =
           Some (bool_str (\<not> open (panes w2 ! m)))))"
proof (rule conjI [OF impI impI])
  assume i: "i < length (panes w)"
  note r = restoredD [OF restored_onEnd [OF i]]
  show "willChange (style (document (onEnd i w) (target (panes w ! i)))) = '''' \<and>
      height (style (document (onEnd i w) (target (panes w ! i)))) = HEmpty \<and>
      display (style (document (onEnd i w) (target (panes w ! i)))) = '''' \<and>
      \<not> isRunning (panes (onEnd i w) ! i) \<and>
      attributes (document (onEnd i w) (button (panes w ! i))) ''aria-expanded'' =
        Some (bool_str (open (panes w ! i))) \<and>
      attributes (document (onEnd i w) (button (panes w ! i))) ''aria-selected'' =
        Some (bool_str (open (panes w ! i))) \<and>
      attributes (document (onEnd i w) (target (panes w ! i))) ''aria-hidden'' =
        Some (bool_str (\<not> open (panes w ! i)))"
    using r i by simp
next
  assume a: "constructor opts e found d = Inr w0 \<and> k < length (pending (run w0 acts))"
  define w1 where "w1 = run w0 acts"
  define m where "m = job_index (pending w1 ! k)"
  define w2 where "w2 = finish k w1"
  from a have w0: "constructor opts e found d = Inr w0" by simp
  have c: "consistent w1"
    unfolding w1_def by (rule consistent_run [OF constructor_Inr(1) [OF w0]])
  have k: "k < length (pending w1)" using a by (simp add: w1_def)
  have m: "m < length (panes w1)"
    unfolding m_def by (rule consistentD(4) [OF c]) (use k in simp)
  have p: "panes w2 ! m = (panes w1 ! m)\<lparr>isRunning := False\<rparr>"
    unfolding w2_def m_def by (rule finish_restores(2) [OF k m [unfolded m_def]])
  have "restored (panes w1 ! m) (document w2)"
    unfolding w2_def m_def by (rule finish_restores(1) [OF k m [unfolded m_def]])
  then have "restored (panes w2 ! m) (document w2)"
    unfolding p by (rule restored_pane)
  note r = restoredD [OF this]
  have "m < length (panes w1) \<and>
         open (panes w2 ! m) = open (panes w1 ! m) \<and>
         willChange (style (document w2 (target (panes w2 ! m)))) = '''' \<and>
         height (style (document w2 (target (panes w2 ! m)))) = HEmpty \<and>
         display (style (document w2 (target (panes w2 ! m)))) = '''' \<and>
         \<not> isRunning (panes w2 ! m) \<and>
         attributes (document w2 (button (panes w2 ! m))) ''aria-expanded'' =
           Some (bool_str (open (panes w2 ! m))) \<and>
         attributes (document w2 (button (panes w2 ! m))) ''aria-selected'' =
           Some (bool_str (open (panes w2 ! m))) \<and>
         attributes (document w2 (target (panes w2 ! m))) ''aria-hidden'' =
           Some (bool_str (\<not> open (panes w2 ! m)))"
    using m r by (simp add: p)
  then show "let w1 = run w0 acts; m = job_index (pending w1 ! k); w2 = finish k w1 in
         m < length (panes w1) \<and>
         open (panes w2 ! m) = open (panes w1 ! m) \<and>
         willChange (style (document w2 (target (panes w2 ! m)))) = '''' \<and>
         height (style (document w2 (target (panes w2 ! m)))) = HEmpty \<and>
         display (style (document w2 (target (panes w2 ! m)))) = '''' \<and>
         \<not> isRunning (panes w2 ! m) \<and>
         attributes (document w2 (button (panes w2 ! m))) ''aria-expanded'' =
           Some (bool_str (open (panes w2 ! m))) \<and>
         attributes (document w2 (button (panes w2 ! m))) ''aria-selected'' =
           Some (bool_str (open (panes w2 ! m))) \<and>
         attributes (document w2 (target (panes w2 ! m))) ''aria-hidden'' =
           Some (bool_str (\<not> open (panes w2 ! m)))"
    unfolding Let_def w1_def [symmetric] m_def [symmetric] w2_def [symmetric] .
qed

theorem onEnd_mirrors_open_witness:
  "0 < length (panes demo) \<and>
   attributes (document (onEnd 0 demo) 1) ''aria-expanded'' = Some ''false'' \<and>
   attributes (document (onEnd 0 demo) 2) ''aria-hidden'' = Some ''true'' \<and>
   constructor defaults 0 found2 page = Inr demo \<and>
   0 < length (pending (run demo [Expand measured 0])) \<and>
   style (document (finish 0 (run demo [Expand measured 0])) 2) = cleared \<and>
   attributes (document (finish 0 (run demo [Expand measured 0])) 1) ''aria-expanded'' = Some ''true'' \<and>
   attributes (document (finish 0 (run demo [Expand measured 0])) 2) ''aria-hidden'' = Some ''false''"
proof -
  have r: "run demo [Expand measured 0] = after (expand measured demo 0)"
    by (simp add: run_def)
  have l: "0 < length (panes demo)" by (simp add: demo_fields)
  have k: "0 < length (pending (run demo [Expand measured 0]))"
    unfolding r by (simp add: demo_expanding)
  have f: "panes (finish 0 (after (expand measured demo 0))) ! 0 =
      \<lparr>button = 1, target = 2, index = 0, open = True, isRunning = False, state = ''close''\<rparr>"
    by (simp add: finish_panes demo_expanding)
  show ?thesis
    using onEnd_mirrors_open [of 0 demo defaults 0 found2 page demo 0 "[Expand measured 0]"]
      l k demo_construct
    unfolding Let_def r
    by (simp add: demo_fields demo_expanding f bool_str_def cleared_def style.equality)
qed

subsection \<open>C4: the order of events and animation\<close>

text \<open>
  C4. When \<open>expand\<close> or \<open>collapse\<close> runs (the index is in the list, the pane is not
  running, the height is measured), what it does to the outside is, in this order, to
  emit \<open>spon:open\<close> or \<open>spon:close\<close> for the pane and then to call \<open>fromTo\<close>. When an
  animation ends, the one thing done to the outside is to emit \<open>spon:opened\<close> or
  \<open>spon:closed\<close> with the panes and the page as the callback leaves them: the pane is not
  running and the page is as \<open>onEnd\<close> made it for the pane (no inline style values, the
  aria attributes written), so nothing is restored after the event.
\<close>

theorem events_bracket_animation:
  "(i < length (panes w) \<and> \<not> isRunning (panes w ! i) \<and> L (target (panes w ! i)) = Some h \<longrightarrow>
      trace (after (expand L w i)) = trace w @
        [Emitted ''spon:open''
           \<lparr>pl_pane = panes (after (expand L w i)) ! i, pl_index = i,
             pl_panes = panes (after (expand L w i))\<rparr>
           (document (after (expand L w i))),
         FromTo \<lparr>tw_start = 0, tw_end = round h, tw_duration = duration (options w),
           tw_easing = easing (options w)\<rparr> i] \<and>
      trace (after (collapse L w i)) = trace w @
        [Emitted ''spon:close''
           \<lparr>pl_pane = (panes w ! i)\<lparr>open := False\<rparr>, pl_index = i,
             pl_panes = (panes w)[i := (panes w ! i)\<lparr>open := False\<rparr>]\<rparr>
           (document (after (collapse L w i))),
         FromTo \<lparr>tw_start = round h, tw_end = 0, tw_duration = duration (options w),
           tw_easing = easing (options w)\<rparr> i]) \<and>
   (k < length (pending w) \<and> job_index (pending w ! k) < length (panes w) \<longrightarrow>
      trace (finish k w) = trace w @
        [Emitted (post_event (job_kind (pending w ! k)))
           \<lparr>pl_pane = panes (finish k w) ! job_index (pending w ! k),
             pl_index = job_index (pending w ! k), pl_panes = panes (finish k w)\<rparr>
           (document (finish k w))] \<and>
      \<not> isRunning (panes (finish k w) ! job_index (pending w ! k)) \<and>
      restored (panes (finish k w) ! job_index (pending w ! k)) (document (finish k w)))"
proof (rule conjI [OF impI impI])
  assume a: "i < length (panes w) \<and> \<not> isRunning (panes w ! i) \<and> L (target (panes w ! i)) = Some h"
  then have i: "i < length (panes w)" and nr: "\<not> isRunning (panes w ! i)"
    and h: "L (target (panes w ! i)) = Some h" by simp_all
  show "trace (after (expand L w i)) = trace w @
        [Emitted ''spon:open''
           \<lparr>pl_pane = panes (after (expand L w i)) ! i, pl_index = i,
             pl_panes = panes (after (expand L w i))\<rparr>
           (document (after (expand L w i))),
         FromTo \<lparr>tw_start = 0, tw_end = round h, tw_duration = duration (options w),
           tw_easing = easing (options w)\<rparr> i] \<and>
      trace (after (collapse L w i)) = trace w @
        [Emitted ''spon:close''
           \<lparr>pl_pane = (panes w ! i)\<lparr>open := False\<rparr>, pl_index = i,
             pl_panes = (panes w)[i := (panes w ! i)\<lparr>open := False\<rparr>]\<rparr>
           (document (after (collapse L w i))),
         FromTo \<lparr>tw_start = round h, tw_end = 0, tw_duration = duration (options w),
           tw_easing = easing (options w)\<rparr> i]"
    by (rule conjI [OF expand_runs(5) [of i w L, OF i nr h] collapse_runs(5) [of i w L, OF i nr h]])
next
  assume a: "k < length (pending w) \<and> job_index (pending w ! k) < length (panes w)"
  then have k: "k < length (pending w)" and m: "job_index (pending w ! k) < length (panes w)"
    by simp_all
  let ?m = "job_index (pending w ! k)"
  have p: "panes (finish k w) ! ?m = (panes w ! ?m)\<lparr>isRunning := False\<rparr>"
    by (rule finish_restores(2) [OF k m])
  have r: "restored (panes (finish k w) ! ?m) (document (finish k w))"
    unfolding p by (rule restored_pane [OF finish_restores(1) [OF k m]])
  have n: "\<not> isRunning (panes (finish k w) ! ?m)" by (simp add: p)
  show "trace (finish k w) = trace w @
        [Emitted (post_event (job_kind (pending w ! k)))
           \<lparr>pl_pane = panes (finish k w) ! ?m, pl_index = ?m, pl_panes = panes (finish k w)\<rparr>
           (document (finish k w))] \<and>
      \<not> isRunning (panes (finish k w) ! ?m) \<and>
      restored (panes (finish k w) ! ?m) (document (finish k w))"
    by (rule conjI [OF finish_restores(3) [OF k m] conjI [OF n r]])
qed

theorem events_bracket_animation_witness:
  "(0 < length (panes demo) \<and> \<not> isRunning (panes demo ! 0) \<and>
      measured (target (panes demo ! 0)) = Some (602 / 5)) \<and>
   event_names (trace (after (expand measured demo 0))) = [''spon:open''] \<and>
   length (trace (after (expand measured demo 0))) = 2 \<and>
   (0 < length (pending (after (expand measured demo 0))) \<and>
    job_index (pending (after (expand measured demo 0)) ! 0) < length (panes (after (expand measured demo 0)))) \<and>
   event_names (trace (finish 0 (after (expand measured demo 0)))) = [''spon:open'', ''spon:opened'']"
proof -
  have a: "0 < length (panes demo) \<and> \<not> isRunning (panes demo ! 0) \<and>
      measured (target (panes demo ! 0)) = Some (602 / 5)"
    by (simp add: demo_fields measured_def)
  have b: "0 < length (pending (after (expand measured demo 0))) \<and>
    job_index (pending (after (expand measured demo 0)) ! 0) < length (panes (after (expand measured demo 0)))"
    by (simp add: demo_expanding)
  note t1 = events_bracket_animation [where i = 0 and w = demo and L = measured and h = "602 / 5",
      THEN conjunct1, THEN mp, OF a, THEN conjunct1]
  note t2 = events_bracket_animation [where w = "after (expand measured demo 0)" and k = 0,
      THEN conjunct2, THEN mp, OF b, THEN conjunct1]
  have e1: "event_names (trace (after (expand measured demo 0))) = [''spon:open'']"
    unfolding t1 by (simp add: demo_fields)
  have l1: "length (trace (after (expand measured demo 0))) = 2"
    unfolding t1 by (simp add: demo_fields)
  have k: "job_kind (pending (after (expand measured demo 0)) ! 0) = Expanding"
    by (simp add: demo_expanding)
  have e2: "event_names (trace (finish 0 (after (expand measured demo 0)))) = [''spon:open'', ''spon:opened'']"
    unfolding t2 k unfolding t1 by (simp add: demo_fields)
  show ?thesis using a e1 l1 b e2 by blast
qed

subsection \<open>C5: expand\<close>

text \<open>
  C5, as the code has it. For an index in the list whose pane is not running and whose target the layout
  engine measures as \<open>h\<close>, \<open>expand\<close> returns, with \<open>isRunning\<close> and \<open>open\<close> of the pane set;
  it has emitted \<open>spon:open\<close> with the pane, the index and the list of panes and then
  called \<open>fromTo\<close> from 0 to \<open>h\<close> rounded to the nearest integer, with the duration and
  the easing of the options; that animation is the one added to the running ones.
  Whenever that animation ends, in whatever widget \<open>w2\<close> it is then running, the target
  has no inline style value left, the pane is not running, and \<open>spon:opened\<close> is emitted.
\<close>

theorem expand_contract:
  assumes i: "i < length (panes w)" and nr: "\<not> isRunning (panes w ! i)"
    and h: "L (target (panes w ! i)) = Some h"
  shows "expand L w i = Inr (after (expand L w i)) \<and>
     isRunning (panes (after (expand L w i)) ! i) \<and>
     open (panes (after (expand L w i)) ! i) \<and>
     trace (after (expand L w i)) = trace w @
        [Emitted ''spon:open''
           \<lparr>pl_pane = panes (after (expand L w i)) ! i, pl_index = i,
             pl_panes = panes (after (expand L w i))\<rparr>
           (document (after (expand L w i))),
         FromTo \<lparr>tw_start = 0, tw_end = round h, tw_duration = duration (options w),
           tw_easing = easing (options w)\<rparr> i] \<and>
     pending (after (expand L w i)) = pending w @
        [\<lparr>job_tween = \<lparr>tw_start = 0, tw_end = round h, tw_duration = duration (options w),
            tw_easing = easing (options w)\<rparr>, job_index = i, job_kind = Expanding\<rparr>] \<and>
     (k < length (pending w2) \<and> i < length (panes w2) \<and>
      pending w2 ! k = \<lparr>job_tween = \<lparr>tw_start = 0, tw_end = round h, tw_duration = duration (options w),
            tw_easing = easing (options w)\<rparr>, job_index = i, job_kind = Expanding\<rparr> \<longrightarrow>
        style (document (finish k w2) (target (panes w2 ! i))) = cleared \<and>
        \<not> isRunning (panes (finish k w2) ! i) \<and>
        open (panes (finish k w2) ! i) = open (panes w2 ! i) \<and>
        trace (finish k w2) = trace w2 @
          [Emitted ''spon:opened''
             \<lparr>pl_pane = panes (finish k w2) ! i, pl_index = i, pl_panes = panes (finish k w2)\<rparr>
             (document (finish k w2))])"
proof -
  note e = expand_runs [of i w L, OF i nr h]
  have r: "isRunning (panes (after (expand L w i)) ! i)" "open (panes (after (expand L w i)) ! i)"
    unfolding e(2) using i by simp_all
  have f: "k < length (pending w2) \<and> i < length (panes w2) \<and>
      pending w2 ! k = \<lparr>job_tween = \<lparr>tw_start = 0, tw_end = round h, tw_duration = duration (options w),
            tw_easing = easing (options w)\<rparr>, job_index = i, job_kind = Expanding\<rparr> \<longrightarrow>
        style (document (finish k w2) (target (panes w2 ! i))) = cleared \<and>
        \<not> isRunning (panes (finish k w2) ! i) \<and>
        open (panes (finish k w2) ! i) = open (panes w2 ! i) \<and>
        trace (finish k w2) = trace w2 @
          [Emitted ''spon:opened''
             \<lparr>pl_pane = panes (finish k w2) ! i, pl_index = i, pl_panes = panes (finish k w2)\<rparr>
             (document (finish k w2))]"
  proof (rule impI)
    assume a: "k < length (pending w2) \<and> i < length (panes w2) \<and>
      pending w2 ! k = \<lparr>job_tween = \<lparr>tw_start = 0, tw_end = round h, tw_duration = duration (options w),
            tw_easing = easing (options w)\<rparr>, job_index = i, job_kind = Expanding\<rparr>"
    then have k: "k < length (pending w2)" and ji: "job_index (pending w2 ! k) = i"
      and jk: "job_kind (pending w2 ! k) = Expanding" and i2: "i < length (panes w2)"
      by simp_all
    have m: "job_index (pending w2 ! k) < length (panes w2)" using i2 ji by simp
    note fr = finish_restores [OF k m, unfolded ji jk]
    have s: "style (document (finish k w2) (target (panes w2 ! i))) = cleared"
      using fr(1) by (simp add: restored_def)
    have n: "\<not> isRunning (panes (finish k w2) ! i)" "open (panes (finish k w2) ! i) = open (panes w2 ! i)"
      unfolding fr(2) by simp_all
    have t: "trace (finish k w2) = trace w2 @
          [Emitted ''spon:opened''
             \<lparr>pl_pane = panes (finish k w2) ! i, pl_index = i, pl_panes = panes (finish k w2)\<rparr>
             (document (finish k w2))]"
      using fr(3) by simp
    show "style (document (finish k w2) (target (panes w2 ! i))) = cleared \<and>
        \<not> isRunning (panes (finish k w2) ! i) \<and>
        open (panes (finish k w2) ! i) = open (panes w2 ! i) \<and>
        trace (finish k w2) = trace w2 @
          [Emitted ''spon:opened''
             \<lparr>pl_pane = panes (finish k w2) ! i, pl_index = i, pl_panes = panes (finish k w2)\<rparr>
             (document (finish k w2))]"
      by (rule conjI [OF s conjI [OF n(1) conjI [OF n(2) t]]])
  qed
  show ?thesis
    by (rule conjI [OF e(1) conjI [OF r(1) conjI [OF r(2) conjI [OF e(5) conjI [OF e(4) f]]]]])
qed

theorem expand_contract_witness:
  "0 < length (panes demo) \<and> \<not> isRunning (panes demo ! 0) \<and>
   measured (target (panes demo ! 0)) = Some (602 / 5) \<and>
   expand measured demo 0 = Inr (after (expand measured demo 0)) \<and>
   map open (panes (after (expand measured demo 0))) = [True, False] \<and>
   map isRunning (panes (after (expand measured demo 0))) = [True, False] \<and>
   map (\<lambda>j. (tw_start (job_tween j), tw_end (job_tween j), tw_duration (job_tween j)))
     (pending (after (expand measured demo 0))) = [(0, 120, 300)] \<and>
   0 < length (pending (after (expand measured demo 0))) \<and>
   \<not> isRunning (panes (finish 0 (after (expand measured demo 0))) ! 0) \<and>
   open (panes (finish 0 (after (expand measured demo 0))) ! 0) \<and>
   style (document (finish 0 (after (expand measured demo 0))) 2) = cleared"
proof -
  have a: "0 < length (panes demo)" "\<not> isRunning (panes demo ! 0)"
    "measured (target (panes demo ! 0)) = Some (602 / 5)"
    by (simp_all add: demo_fields measured_def)
  have b: "0 < length (pending (after (expand measured demo 0))) \<and>
      0 < length (panes (after (expand measured demo 0))) \<and>
      pending (after (expand measured demo 0)) ! 0 =
        \<lparr>job_tween = \<lparr>tw_start = 0, tw_end = round (602 / 5 :: real), tw_duration = duration (options demo),
            tw_easing = easing (options demo)\<rparr>, job_index = 0, job_kind = Expanding\<rparr>"
    by (simp add: demo_expanding demo_fields defaults_def)
  note t = expand_contract [where i = 0 and w = demo and L = measured and h = "602 / 5" and k = 0
      and ?w2.0 = "after (expand measured demo 0)", OF a]
  note c = t [THEN conjunct2, THEN conjunct2, THEN conjunct2, THEN conjunct2, THEN conjunct2,
      THEN mp, OF b]
  have c1: "\<not> isRunning (panes (finish 0 (after (expand measured demo 0))) ! 0)"
    by (rule c [THEN conjunct2, THEN conjunct1])
  have c2: "open (panes (finish 0 (after (expand measured demo 0))) ! 0)"
    using c [THEN conjunct2, THEN conjunct2, THEN conjunct1] by (simp add: demo_expanding)
  have c3: "style (document (finish 0 (after (expand measured demo 0))) 2) = cleared"
    using c [THEN conjunct1] by (simp add: demo_expanding)
  show ?thesis
    using a t [THEN conjunct1] c1 c2 c3 by (simp add: demo_expanding)
qed

text \<open>
  C5, as the claim has it, fails: the animation does not end at the measured height when
  that is not a whole number. A target measured as 120.4 pixels is animated to 120.
\<close>

theorem expand_end_is_rounded:
  "measured (target (panes demo ! 0)) = Some (602 / 5) \<and>
   map (\<lambda>j. tw_end (job_tween j)) (pending (after (expand measured demo 0))) = [120] \<and>
   real_of_int 120 \<noteq> 602 / 5"
proof -
  have m: "measured (target (panes demo ! 0)) = Some (602 / 5)"
    by (simp add: measured_def)
  have e: "map (\<lambda>j. tw_end (job_tween j)) (pending (after (expand measured demo 0))) = [120]"
    by (simp add: demo_expanding)
  show ?thesis using m e by simp
qed

subsection \<open>C7: the events\<close>

lemma events_expand:
  "list_all event_ok (trace w) \<Longrightarrow> list_all event_ok (trace (after (expand L w i)))"
  by (simp add: expand_def Let_def event_names_emitted_def split: option.splits)

lemma events_collapse:
  "list_all event_ok (trace w) \<Longrightarrow> list_all event_ok (trace (after (collapse L w i)))"
  by (simp add: collapse_def Let_def event_names_emitted_def split: option.splits)

lemma events_close_current:
  "list_all event_ok (trace w) \<Longrightarrow> list_all event_ok (trace (after (close_current L w i)))"
  by (simp add: close_current_def events_collapse split: option.splits)

lemma events_clickHandle:
  assumes t: "list_all event_ok (trace w)"
  shows "list_all event_ok (trace (after (clickHandle L w i)))"
proof (cases "i < length (panes w)")
  case False
  then show ?thesis using t by (simp add: clickHandle_def)
next
  case i: True
  show ?thesis
  proof (cases "map_of machine (state (panes w ! i))")
    case None
    then show ?thesis using t i by (simp add: clickHandle_def)
  next
    case (Some s)
    from clickHandle_shape [OF i Some, of L] obtain w2 w3 where
      w2: "w2 = after (close_current L (upd_pane i (\<lambda>p. p\<lparr>state := s\<rparr>) w) i)"
      and w3: "w3 = w2 \<or> w3 = after (expand L w2 i) \<or> w3 = after (collapse L w2 i)"
      and r: "after (clickHandle L w i) = w3 \<or> after (clickHandle L w i) = w3\<lparr>current := Some i\<rparr>"
      by blast
    have t2: "list_all event_ok (trace w2)"
      unfolding w2 by (rule events_close_current) (use t in simp)
    have t3: "list_all event_ok (trace w3)"
      using w3 t2 events_expand [of w2 L i] events_collapse [of w2 L i] by auto
    show ?thesis using r t3 by auto
  qed
qed

lemma events_finish:
  assumes c: "consistent w" and t: "list_all event_ok (trace w)"
  shows "list_all event_ok (trace (finish k w))"
proof (cases "k < length (pending w)")
  case False
  then show ?thesis using t by (simp add: finish_def)
next
  case True
  have m: "job_index (pending w ! k) < length (panes w)"
    by (rule consistentD(4) [OF c]) (use True in simp)
  show ?thesis
    unfolding finish_restores(3) [OF True m]
    using t m by (cases "job_kind (pending w ! k)") (simp_all add: event_names_emitted_def finish_fields)
qed

lemma events_step:
  assumes c: "consistent w" and t: "list_all event_ok (trace w)"
  shows "list_all event_ok (trace (step w a))"
  using t
  by (cases a) (simp_all add: events_clickHandle events_expand events_collapse events_finish [OF c] tick_def)

lemma events_run:
  assumes c: "consistent w" and t: "list_all event_ok (trace w)"
  shows "list_all event_ok (trace (run w acts))"
proof (induction acts rule: rev_induct)
  case Nil
  then show ?case using t by (simp add: run_def)
next
  case (snoc a acts)
  show ?case
    unfolding run_snoc by (rule events_step [OF consistent_run [OF c] snoc])
qed

lemma event_names_ok:
  "list_all event_ok es \<Longrightarrow> set (event_names es) \<subseteq> set event_names_emitted"
  by (induction es rule: event_names.induct) simp_all

lemma demo_event_names:
  "event_names (trace (finish 0 (after (expand measured demo 0)))) = [''spon:open'', ''spon:opened'']"
proof -
  have a: "0 < length (panes demo)" "\<not> isRunning (panes demo ! 0)"
    "measured (target (panes demo ! 0)) = Some (602 / 5)"
    by (simp_all add: demo_fields measured_def)
  have k: "0 < length (pending (after (expand measured demo 0)))"
    and m: "job_index (pending (after (expand measured demo 0)) ! 0) <
              length (panes (after (expand measured demo 0)))"
    and j: "job_kind (pending (after (expand measured demo 0)) ! 0) = Expanding"
    by (simp_all add: demo_expanding)
  show ?thesis
    unfolding finish_restores(3) [OF k m] j
    unfolding expand_runs(5) [of 0 demo measured, OF a]
    by (simp add: demo_fields)
qed

text \<open>
  C7, as the code has it. Every event that a widget emits, from the constructor on, is
  named \<open>spon:open\<close>, \<open>spon:opened\<close>, \<open>spon:close\<close> or \<open>spon:closed\<close>, and its payload
  holds an index into the list of panes that it holds and the pane at that index. All
  four are emitted: a widget with a pane whose target is measured emits them, in this
  order, when the pane is expanded and then collapsed and each animation ends.
\<close>

theorem events_are_spon_named:
  assumes w0: "constructor opts e found d = Inr w0"
  shows "list_all event_ok (trace (run w0 acts)) \<and>
         set (event_names (trace (run w0 acts))) \<subseteq>
           {''spon:open'', ''spon:opened'', ''spon:close'', ''spon:closed''} \<and>
         (0 < length (panes w0) \<and> L (target (panes w0 ! 0)) = Some h \<longrightarrow>
            event_names (trace (run w0 [Expand L 0, Finish 0, Collapse L 0, Finish 0])) =
              [''spon:open'', ''spon:opened'', ''spon:close'', ''spon:closed''])"
proof -
  have t: "list_all event_ok (trace (run w0 acts))"
    by (rule events_run [OF constructor_Inr(1) [OF w0]]) (simp add: constructor_Inr(3) [OF w0])
  have n: "set (event_names (trace (run w0 acts))) \<subseteq>
           {''spon:open'', ''spon:opened'', ''spon:close'', ''spon:closed''}"
    using event_names_ok [OF t] by (simp add: event_names_emitted_def)
  have a: "0 < length (panes w0) \<and> L (target (panes w0 ! 0)) = Some h \<longrightarrow>
            event_names (trace (run w0 [Expand L 0, Finish 0, Collapse L 0, Finish 0])) =
              [''spon:open'', ''spon:opened'', ''spon:close'', ''spon:closed'']"
  proof (rule impI)
    assume p: "0 < length (panes w0) \<and> L (target (panes w0 ! 0)) = Some h"
    then have i: "0 < length (panes w0)" and h: "L (target (panes w0 ! 0)) = Some h" by simp_all
    have nr: "\<not> isRunning (panes w0 ! 0)"
      using constructor_Inr(6) [OF w0] i by simp
    have r: "run w0 [Expand L 0, Finish 0, Collapse L 0, Finish 0] =
        finish (length (pending w0)) (after (collapse L
           (finish (length (pending w0)) (after (expand L w0 0))) 0))"
      by (simp add: run_def constructor_Inr(2) [OF w0])
    show "event_names (trace (run w0 [Expand L 0, Finish 0, Collapse L 0, Finish 0])) =
              [''spon:open'', ''spon:opened'', ''spon:close'', ''spon:closed'']"
      unfolding r round_trip_events [where L = L and L' = L, OF i nr h h]
      by (simp add: constructor_Inr(3) [OF w0])
  qed
  show ?thesis by (rule conjI [OF t conjI [OF n a]])
qed

theorem events_are_spon_named_witness:
  "constructor defaults 0 found2 page = Inr demo \<and>
   0 < length (panes demo) \<and> measured (target (panes demo ! 0)) = Some (602 / 5) \<and>
   list_all event_ok (trace (run demo [Expand measured 0, Finish 0, Collapse measured 0, Finish 0])) \<and>
   event_names (trace (run demo [Expand measured 0, Finish 0, Collapse measured 0, Finish 0])) =
     [''spon:open'', ''spon:opened'', ''spon:close'', ''spon:closed'']"
proof -
  have a: "0 < length (panes demo) \<and> measured (target (panes demo ! 0)) = Some (602 / 5)"
    by (simp add: demo_fields measured_def)
  note t = events_are_spon_named [OF demo_construct,
      where acts = "[Expand measured 0, Finish 0, Collapse measured 0, Finish 0]"
        and L = measured and h = "602 / 5"]
  show ?thesis
    using demo_construct a t [THEN conjunct1] t [THEN conjunct2, THEN conjunct2, THEN mp, OF a]
    by simp
qed

text \<open>
  C7, as the claim has it, fails: the one event of an \<open>expand\<close> is not named \<open>open\<close>,
  \<open>opened\<close>, \<open>close\<close> or \<open>closed\<close>.
\<close>

theorem events_not_plainly_named:
  "\<not> set (event_names (trace (run demo [Expand measured 0]))) \<subseteq>
       {''open'', ''opened'', ''close'', ''closed''}"
proof -
  have r: "run demo [Expand measured 0] = after (expand measured demo 0)"
    by (simp add: run_def)
  have a: "0 < length (panes demo)" "\<not> isRunning (panes demo ! 0)"
    "measured (target (panes demo ! 0)) = Some (602 / 5)"
    by (simp_all add: demo_fields measured_def)
  show ?thesis
    unfolding r expand_runs(5) [of 0 demo measured, OF a] by (simp add: demo_fields)
qed

subsection \<open>C6: expand and a measurement that fails\<close>

lemma style_setAttribute [simp]: "style (setAttribute k v e) = style e"
  by (simp add: setAttribute_def)

lemma style_upd_node:
  "(\<And>e. style (f e) = style e) \<Longrightarrow> style (document (upd_node n f w) m) = style (document w m)"
  by simp

lemma createPanel_style:
  assumes "createPanel b t i w = Inr (obj, w')"
  shows "style (document w' m) = style (document w m)"
proof (cases t)
  case None
  then show ?thesis using assms by (simp add: createPanel_def Let_def)
next
  case (Some tn)
  have "w' = snd (obj, w')" by simp
  also have "(obj, w') = projr (createPanel b t i w)" using assms by simp
  finally have w': "w' = snd (projr (createPanel b t i w))" .
  show ?thesis
    unfolding w' createPanel_def Let_def Some
    by (simp add: style_upd_node del: upd_node_fields)
qed

lemma map_panels_style:
  "map_panels i bs w = Inr (objs, w') \<Longrightarrow> style (document w' m) = style (document w m)"
proof (induction bs arbitrary: i w objs w')
  case Nil
  then show ?case by simp
next
  case (Cons bt bs)
  obtain b t where bt: "bt = (b, t)" by (cases bt)
  from Cons.prems obtain obj w1 objs' where
    cp: "createPanel b t i w = Inr (obj, w1)"
    and mp: "map_panels (Suc i) bs w1 = Inr (objs', w')"
    by (auto simp: bt split: sum.splits prod.splits)
  show ?case
    using Cons.IH [OF mp] createPanel_style [OF cp] by simp
qed

lemma constructor_style:
  assumes "constructor opts e found d = Inr w"
  shows "style (document w m) = style (d m)"
proof -
  let ?w0 = "\<lparr>options = opts, el = e, panes = [], current = None, document = d,
               pending = [], trace = []\<rparr>"
  from assms obtain objs w1 where mp: "map_panels 0 found ?w0 = Inr (objs, w1)"
    and w: "w = upd_node (el w1) (setAttribute ''aria-multiselectable'' (bool_str (closeOthers (options w1))))
                (upd_node (el w1) (setAttribute ''role'' ''tablist'') (w1\<lparr>panes := objs\<rparr>))"
    by (auto simp: constructor_def init_def createPanels_def split: sum.splits prod.splits)
  have "style (document w m) = style (document w1 m)"
    unfolding w by (simp add: style_upd_node del: upd_node_fields)
  then show ?thesis using map_panels_style [OF mp, of m] by simp
qed

lemma demo_page:
  "style (document demo m) = cleared"
  using constructor_style [OF demo_construct, of m] by (simp add: page_def blank_def)

lemma demo_detached:
  "panes (after (expand detached demo 0)) =
     [\<lparr>button = 1, target = 2, index = 0, open = True, isRunning = True, state = ''close''\<rparr>,
      \<lparr>button = 3, target = 4, index = 1, open = False, isRunning = False, state = ''close''\<rparr>]"
  "pending (after (expand detached demo 0)) =
     [\<lparr>job_tween = \<lparr>tw_start = 0, tw_end = 0, tw_duration = 300, tw_easing = defaultEasing\<rparr>,
       job_index = 0, job_kind = Expanding\<rparr>]"
  by (simp_all add: expand_def Let_def demo_fields detached_def defaults_def)

lemma expand_then_finish_events:
  assumes i: "i < length (panes w)" and nr: "\<not> isRunning (panes w ! i)"
    and h: "L (target (panes w ! i)) = Some h"
  shows "event_names (trace (after (expand L w i))) = event_names (trace w) @ [''spon:open'']"
    and "event_names (trace (finish (length (pending w)) (after (expand L w i)))) =
           event_names (trace w) @ [''spon:open'', ''spon:opened'']"
proof -
  note e = expand_runs [of i w L, OF i nr h]
  have k: "length (pending w) < length (pending (after (expand L w i)))" by (simp add: e(4))
  have j: "job_index (pending (after (expand L w i)) ! length (pending w)) = i"
    "job_kind (pending (after (expand L w i)) ! length (pending w)) = Expanding"
    by (simp_all add: e(4))
  have m: "job_index (pending (after (expand L w i)) ! length (pending w)) <
             length (panes (after (expand L w i)))"
    unfolding j using i by (simp add: e(2))
  show t: "event_names (trace (after (expand L w i))) = event_names (trace w) @ [''spon:open'']"
    unfolding e(5) by simp
  show "event_names (trace (finish (length (pending w)) (after (expand L w i)))) =
           event_names (trace w) @ [''spon:open'', ''spon:opened'']"
    unfolding finish_restores(3) [OF k m] j using t by simp
qed

text \<open>
  C6, as the code has it. \<open>expand\<close> knows no failed measurement, and nothing in it aborts
  a transition or puts a field back. Whatever number \<open>getBoundingClientRect\<close> answers (0
  for a target that is not in the document), \<open>expand\<close> sets \<open>isRunning\<close> and \<open>open\<close>, emits
  \<open>spon:open\<close> and starts the animation from 0 to the rounded answer, and the end of that
  animation emits \<open>spon:opened\<close>. Only when \<open>getBoundingClientRect\<close> throws does the call
  stop, as there is no handler: \<open>isRunning\<close> and \<open>open\<close> have not been written then,
  nothing is emitted and no animation is started, but the inline \<open>display\<close> of the target,
  set to \<open>block\<close> before the measurement, stays.
\<close>

theorem expand_has_no_measurement_failure:
  assumes i: "i < length (panes w)" and nr: "\<not> isRunning (panes w ! i)"
  shows "(L (target (panes w ! i)) = Some h \<longrightarrow>
       expand L w i = Inr (after (expand L w i)) \<and>
       isRunning (panes (after (expand L w i)) ! i) \<and>
       open (panes (after (expand L w i)) ! i) \<and>
       event_names (trace (after (expand L w i))) = event_names (trace w) @ [''spon:open''] \<and>
       pending (after (expand L w i)) = pending w @
         [\<lparr>job_tween = \<lparr>tw_start = 0, tw_end = round h, tw_duration = duration (options w),
             tw_easing = easing (options w)\<rparr>, job_index = i, job_kind = Expanding\<rparr>] \<and>
       event_names (trace (finish (length (pending w)) (after (expand L w i)))) =
         event_names (trace w) @ [''spon:open'', ''spon:opened'']) \<and>
     (L (target (panes w ! i)) = None \<longrightarrow>
       expand L w i = Inl (MeasurementError, after (expand L w i)) \<and>
       panes (after (expand L w i)) = panes w \<and>
       pending (after (expand L w i)) = pending w \<and>
       trace (after (expand L w i)) = trace w \<and>
       document (after (expand L w i)) =
         (document w)(target (panes w ! i) := (document w (target (panes w ! i)))
            \<lparr>style := (style (document w (target (panes w ! i))))\<lparr>display := ''block''\<rparr>\<rparr>))"
proof (rule conjI [OF impI impI])
  assume h: "L (target (panes w ! i)) = Some h"
  note e = expand_runs [of i w L, OF i nr h]
  note t = expand_then_finish_events [of i w L, OF i nr h]
  have r: "isRunning (panes (after (expand L w i)) ! i)" "open (panes (after (expand L w i)) ! i)"
    unfolding e(2) using i by simp_all
  show "expand L w i = Inr (after (expand L w i)) \<and>
       isRunning (panes (after (expand L w i)) ! i) \<and>
       open (panes (after (expand L w i)) ! i) \<and>
       event_names (trace (after (expand L w i))) = event_names (trace w) @ [''spon:open''] \<and>
       pending (after (expand L w i)) = pending w @
         [\<lparr>job_tween = \<lparr>tw_start = 0, tw_end = round h, tw_duration = duration (options w),
             tw_easing = easing (options w)\<rparr>, job_index = i, job_kind = Expanding\<rparr>] \<and>
       event_names (trace (finish (length (pending w)) (after (expand L w i)))) =
         event_names (trace w) @ [''spon:open'', ''spon:opened'']"
    by (rule conjI [OF e(1) conjI [OF r(1) conjI [OF r(2) conjI [OF t(1) conjI [OF e(4) t(2)]]]]])
next
  assume h: "L (target (panes w ! i)) = None"
  show "expand L w i = Inl (MeasurementError, after (expand L w i)) \<and>
       panes (after (expand L w i)) = panes w \<and>
       pending (after (expand L w i)) = pending w \<and>
       trace (after (expand L w i)) = trace w \<and>
       document (after (expand L w i)) =
         (document w)(target (panes w ! i) := (document w (target (panes w ! i)))
            \<lparr>style := (style (document w (target (panes w ! i))))\<lparr>display := ''block''\<rparr>\<rparr>)"
    using i nr h by (simp add: expand_def Let_def)
qed

theorem expand_has_no_measurement_failure_witness:
  "0 < length (panes demo) \<and> \<not> isRunning (panes demo ! 0) \<and>
   detached (target (panes demo ! 0)) = Some 0 \<and>
   expand detached demo 0 = Inr (after (expand detached demo 0)) \<and>
   map open (panes (after (expand detached demo 0))) = [True, False] \<and>
   map isRunning (panes (after (expand detached demo 0))) = [True, False] \<and>
   event_names (trace (finish 0 (after (expand detached demo 0)))) = [''spon:open'', ''spon:opened''] \<and>
   unmeasured (target (panes demo ! 0)) = None \<and>
   expand unmeasured demo 0 = Inl (MeasurementError, after (expand unmeasured demo 0)) \<and>
   map open (panes (after (expand unmeasured demo 0))) = [False, False] \<and>
   map isRunning (panes (after (expand unmeasured demo 0))) = [False, False] \<and>
   trace (after (expand unmeasured demo 0)) = [] \<and>
   pending (after (expand unmeasured demo 0)) = [] \<and>
   style (document (after (expand unmeasured demo 0)) 2) = cleared\<lparr>display := ''block''\<rparr>"
proof -
  have a: "0 < length (panes demo)" "\<not> isRunning (panes demo ! 0)"
    by (simp_all add: demo_fields)
  have s: "detached (target (panes demo ! 0)) = Some 0" by (simp add: detached_def)
  have n: "unmeasured (target (panes demo ! 0)) = None" by (simp add: unmeasured_def)
  note t1 = expand_has_no_measurement_failure [where L = detached and h = 0, OF a,
      THEN conjunct1, THEN mp, OF s]
  note t2 = expand_has_no_measurement_failure [where L = unmeasured and h = 0, OF a,
      THEN conjunct2, THEN mp, OF n]
  have e: "event_names (trace (finish 0 (after (expand detached demo 0)))) =
      [''spon:open'', ''spon:opened'']"
    using t1 by (simp add: demo_fields)
  show ?thesis
    using a s n t1 [THEN conjunct1] e t2
    by (simp add: demo_detached demo_fields demo_page)
qed

text \<open>
  C6, as the claim has it, fails: with a target that is not in the document, so that no
  height is measured, the transition is not aborted. The pane is open and running after
  \<open>expand\<close>, \<open>spon:open\<close> is emitted, an animation (from 0 to 0) is started, and its end
  emits \<open>spon:opened\<close>.
\<close>

theorem detached_content_still_opens:
  "\<not> open (panes demo ! 0) \<and> \<not> isRunning (panes demo ! 0) \<and>
   detached (target (panes demo ! 0)) = Some 0 \<and>
   open (panes (after (expand detached demo 0)) ! 0) \<and>
   isRunning (panes (after (expand detached demo 0)) ! 0) \<and>
   length (pending (after (expand detached demo 0))) = 1 \<and>
   event_names (trace (after (expand detached demo 0))) = [''spon:open''] \<and>
   event_names (trace (finish 0 (after (expand detached demo 0)))) = [''spon:open'', ''spon:opened'']"
proof -
  have a: "0 < length (panes demo)" "\<not> isRunning (panes demo ! 0)"
    "detached (target (panes demo ! 0)) = Some 0"
    by (simp_all add: demo_fields detached_def)
  note t = expand_then_finish_events [of 0 demo detached, OF a]
  show ?thesis
    using a t by (simp add: demo_detached demo_fields)
qed

text \<open>
  And when the measurement throws, the target is not as it was before the call: it
  carries an inline \<open>display: block\<close>.
\<close>

lemma expand_throw_leaves_display:
  "unmeasured (target (panes demo ! 0)) = None \<and>
   display (style (document demo 2)) = '''' \<and>
   display (style (document (after (expand unmeasured demo 0)) 2)) = ''block'' \<and>
   style (document (after (expand unmeasured demo 0)) (target (panes demo ! 0))) \<noteq>
     style (document demo (target (panes demo ! 0)))"
  by (simp add: expand_def Let_def demo_fields demo_page unmeasured_def cleared_def)

subsection \<open>C8: expand and then collapse\<close>

lemma demo_inline_construct: "constructor defaults 0 found2 page_inline = Inr demo_inline"
  by (simp add: demo_inline_def constructor_def init_def createPanels_def createPanel_def found2_def
      defaults_def Let_def)

lemma demo_inline_fields:
  "panes demo_inline =
     [\<lparr>button = 1, target = 2, index = 0, open = False, isRunning = False, state = ''close''\<rparr>,
      \<lparr>button = 3, target = 4, index = 1, open = False, isRunning = False, state = ''close''\<rparr>]"
  "pending demo_inline = []"
  by (simp_all add: demo_inline_def constructor_def init_def createPanels_def createPanel_def found2_def
      defaults_def Let_def)

lemma demo_inline_page: "style (document demo_inline 2) = cleared\<lparr>display := ''none''\<rparr>"
  using constructor_style [OF demo_inline_construct, of 2] by (simp add: page_inline_def blank_def)

text \<open>
  C8, as the code has it. \<open>expand\<close> and then \<open>collapse\<close> of a pane that is not running,
  each followed by the end of its animation, leave the target without inline \<open>height\<close>,
  \<open>display\<close> and \<open>will-change\<close> (\<open>onEnd\<close> writes the empty string, it does not put back what
  was there), the pane closed and not running, and the running animations as they were.
  So the inline values are as before the \<open>expand\<close> when there were none before.
\<close>

theorem round_trip_clears:
  assumes i: "i < length (panes w)" and nr: "\<not> isRunning (panes w ! i)"
    and h1: "L (target (panes w ! i)) = Some h1" and h2: "L' (target (panes w ! i)) = Some h2"
  shows "(let w1 = after (expand L w i); w2 = finish (length (pending w)) w1;
              w3 = after (collapse L' w2 i); w4 = finish (length (pending w)) w3
          in pending w2 = pending w \<and> \<not> isRunning (panes w2 ! i) \<and> open (panes w2 ! i) \<and>
             style (document w4 (target (panes w ! i))) = cleared \<and>
             pending w4 = pending w \<and> \<not> isRunning (panes w4 ! i) \<and> \<not> open (panes w4 ! i) \<and>
             (style (document w (target (panes w ! i))) = cleared \<longrightarrow>
                style (document w4 (target (panes w ! i))) = style (document w (target (panes w ! i)))))"
  unfolding Let_def
  using i round_trip [where L = L and L' = L', OF i nr h1 h2] by simp

theorem round_trip_clears_witness:
  "0 < length (panes demo) \<and> \<not> isRunning (panes demo ! 0) \<and>
   measured (target (panes demo ! 0)) = Some (602 / 5) \<and>
   style (document demo (target (panes demo ! 0))) = cleared \<and>
   style (document (finish (length (pending demo)) (after (collapse measured
      (finish (length (pending demo)) (after (expand measured demo 0))) 0))) (target (panes demo ! 0)))
     = style (document demo (target (panes demo ! 0)))"
proof -
  have a: "0 < length (panes demo)" "\<not> isRunning (panes demo ! 0)"
    "measured (target (panes demo ! 0)) = Some (602 / 5)"
    by (simp_all add: demo_fields measured_def)
  have s: "style (document demo (target (panes demo ! 0))) = cleared"
    by (rule demo_page)
  show ?thesis
    using a s round_trip_clears [where L = measured and L' = measured, OF a a(3)]
    unfolding Let_def by simp
qed

text \<open>
  C8, as the claim has it, fails: a target that carries an inline \<open>display: none\<close> before
  the \<open>expand\<close> carries no inline \<open>display\<close> after the \<open>collapse\<close>.
\<close>

theorem round_trip_not_identity:
  "display (style (document demo_inline (target (panes demo_inline ! 0)))) = ''none'' \<and>
   display (style (document (finish (length (pending demo_inline)) (after (collapse measured
      (finish (length (pending demo_inline)) (after (expand measured demo_inline 0))) 0)))
        (target (panes demo_inline ! 0)))) = '''' \<and>
   style (document (finish (length (pending demo_inline)) (after (collapse measured
      (finish (length (pending demo_inline)) (after (expand measured demo_inline 0))) 0)))
        (target (panes demo_inline ! 0))) \<noteq>
     style (document demo_inline (target (panes demo_inline ! 0)))"
proof -
  have a: "0 < length (panes demo_inline)" "\<not> isRunning (panes demo_inline ! 0)"
    "measured (target (panes demo_inline ! 0)) = Some (602 / 5)"
    by (simp_all add: demo_inline_fields measured_def)
  have t: "target (panes demo_inline ! 0) = 2" by (simp add: demo_inline_fields)
  show ?thesis
    unfolding round_trip(1) [where L = measured and L' = measured, OF a a(3)]
    unfolding t demo_inline_page
    by (simp add: cleared_def)
qed

subsection \<open>C9: a click on a running pane\<close>












end
